theory Spec2Isabelle
  imports Complex_Main "HOL-Library.Sublist" "HOL-Library.AList"
begin

section \<open>The query plan graph of bq-visualizer (src/app/bq\_query\_plan.ts)\<close>

text \<open>
  The class \<^verbatim>\<open>BqQueryPlan\<close> turns a BigQuery job document into a graph: the stages of
  the query plan are the nodes, a ghost node is synthesised for every table that is read
  and is no stage, edges run from the source of a read to the reading stage, and every
  stage with usable timestamps receives display fields. The theory embeds the constructor,
  \<^verbatim>\<open>getReads\<close>, \<^verbatim>\<open>getNode\<close>, \<^verbatim>\<open>improveNodeInfo\<close>, the row projection of \<^verbatim>\<open>asGoogleGantt\<close> and
  \<^verbatim>\<open>colorForMaxTime\<close>, and proves the properties of the specification about them.
\<close>

subsection \<open>JavaScript values\<close>

text \<open>
  A JavaScript number is an IEEE 754 double: \<open>NaN\<close>, one of the two infinities, the
  negative zero, or a finite double, which is represented by the rational it denotes
  (\<open>Fin 0\<close> is the positive zero). The arithmetic of doubles rounds, overflows and keeps
  the sign of zero; it is the host's and is a parameter of the model (see \<open>runtime\<close>
  below). What is defined here are the operations that involve no rounding: the test for
  \<open>NaN\<close>, the order behind \<^verbatim>\<open>Math.max\<close> and strict equality.
\<close>

datatype jsnum = NaN | NegInf | NegZero | Fin rat | PosInf

datatype jserror = TypeError

fun isNaN :: "jsnum \<Rightarrow> bool" where
  "isNaN NaN = True"
| "isNaN _ = False"

fun isZero :: "jsnum \<Rightarrow> bool" where
  "isZero NegZero = True"
| "isZero (Fin x) = (x = 0)"
| "isZero _ = False"

text \<open>
  \<^verbatim>\<open>Math.max\<close>: \<open>NaN\<close> as soon as one argument is \<open>NaN\<close>, \<open>-Infinity\<close> for no argument;
  the positive zero counts as larger than the negative zero.
\<close>

fun jsLe :: "jsnum \<Rightarrow> jsnum \<Rightarrow> bool" where
  "jsLe NaN _ = False"
| "jsLe _ NaN = False"
| "jsLe NegInf _ = True"
| "jsLe _ PosInf = True"
| "jsLe PosInf _ = False"
| "jsLe _ NegInf = False"
| "jsLe NegZero NegZero = True"
| "jsLe NegZero (Fin y) = (0 \<le> y)"
| "jsLe (Fin x) NegZero = (x < 0)"
| "jsLe (Fin x) (Fin y) = (x \<le> y)"

definition max2 :: "jsnum \<Rightarrow> jsnum \<Rightarrow> jsnum" where
  "max2 a b = (if isNaN a \<or> isNaN b then NaN else if jsLe a b then b else a)"

definition mathMax :: "jsnum list \<Rightarrow> jsnum" where
  "mathMax xs = foldl max2 NegInf xs"

text \<open>
  Strict equality \<^verbatim>\<open>===\<close> on numbers: \<open>NaN\<close> equals nothing, itself included, and the two
  zeros are equal.
\<close>

definition strictEq :: "jsnum \<Rightarrow> jsnum \<Rightarrow> bool" where
  "strictEq a b = (\<not> isNaN a \<and> (a = b \<or> (isZero a \<and> isZero b)))"

text \<open>
  \<^verbatim>\<open>Array.prototype.indexOf\<close>: the first index holding a strictly equal element, \<open>-1\<close>
  when there is none; and the read \<^verbatim>\<open>arr[i]\<close>, which is \<^verbatim>\<open>undefined\<close> (\<open>None\<close>) outside
  the array.
\<close>

fun indexOfFrom :: "int \<Rightarrow> jsnum list \<Rightarrow> jsnum \<Rightarrow> int" where
  "indexOfFrom k [] v = - 1"
| "indexOfFrom k (x # xs) v = (if strictEq x v then k else indexOfFrom (k + 1) xs v)"

definition indexOf :: "jsnum list \<Rightarrow> jsnum \<Rightarrow> int" where
  "indexOf xs v = indexOfFrom 0 xs v"

definition arrayGet :: "'a list \<Rightarrow> int \<Rightarrow> 'a option" where
  "arrayGet xs i = (if 0 \<le> i \<and> i < int (length xs) then Some (xs ! nat i) else None)"

text \<open>
  The host functions the code calls and the repository does not define: the conversion of
  a string to a number behind \<^verbatim>\<open>Number(s)\<close>, \<^verbatim>\<open>toLocaleString('en')\<close> on numbers, and the
  operators \<^verbatim>\<open>-\<close>, \<^verbatim>\<open>*\<close> and \<^verbatim>\<open>/\<close> on numbers. They are parameters of the model, so every
  theorem holds for the host's own functions, rounding, overflow and signed zero included.
\<close>

record runtime =
  StringToNumber :: "string \<Rightarrow> jsnum"
  toLocaleString :: "jsnum \<Rightarrow> string"
  numSubtract :: "jsnum \<Rightarrow> jsnum \<Rightarrow> jsnum"
  numMultiply :: "jsnum \<Rightarrow> jsnum \<Rightarrow> jsnum"
  numDivide :: "jsnum \<Rightarrow> jsnum \<Rightarrow> jsnum"

text \<open>
  \<^verbatim>\<open>Number(x)\<close> for a field that holds a string or is absent: \<^verbatim>\<open>Number(undefined)\<close> is \<open>NaN\<close>.
  A field is truthy when it is present and not the empty string.
\<close>

definition Number :: "runtime \<Rightarrow> string option \<Rightarrow> jsnum" where
  "Number rt x = (case x of None \<Rightarrow> NaN | Some s \<Rightarrow> StringToNumber rt s)"

definition truthy :: "string option \<Rightarrow> bool" where
  "truthy x = (case x of None \<Rightarrow> False | Some s \<Rightarrow> s \<noteq> [])"

text \<open>\<^verbatim>\<open>s.split(c)\<close> for a one-character separator: adjacent separators give empty items.\<close>

fun split :: "char \<Rightarrow> string \<Rightarrow> string list" where
  "split c [] = [[]]"
| "split c (x # xs) =
     (if x = c then [] # split c xs
      else (case split c xs of [] \<Rightarrow> [[x]] | w # ws \<Rightarrow> (x # w) # ws))"

text \<open>
  \<^verbatim>\<open>arr.map(f)\<close> for a callback that may throw: the first exception, in the order of the
  elements, ends the whole call.
\<close>

fun mapE :: "('a \<Rightarrow> jserror + 'b) \<Rightarrow> 'a list \<Rightarrow> jserror + 'b list" where
  "mapE f [] = Inr []"
| "mapE f (x # xs) =
     (case f x of Inl e \<Rightarrow> Inl e
      | Inr y \<Rightarrow> (case mapE f xs of Inl e \<Rightarrow> Inl e | Inr ys \<Rightarrow> Inr (y # ys)))"

subsection \<open>The data model\<close>

text \<open>
  Modelled from the spec: the interfaces \<^verbatim>\<open>Job\<close>, \<^verbatim>\<open>QueryStage\<close> and \<^verbatim>\<open>QueryStep\<close> of
  \<^verbatim>\<open>rest_interfaces\<close>, which is not among the sources. A stage has an identifier, a name,
  a list of steps, a list of input stage identifiers, start and end timestamps
  (milliseconds, as numeric strings) and the average and maximum wait, read, compute and
  write times; a step has a kind and a list of substep strings. Every field the code tests
  for presence is optional. \<open>props\<close> holds the properties the code adds under display keys
  (\<^verbatim>\<open>node['durationMs  '] = ...\<close>), in insertion order; none of these keys is the name of a
  declared field. The fields \<^verbatim>\<open>id\<close> and \<^verbatim>\<open>name\<close> of a stage are \<open>nodeId\<close> and \<open>nodeName\<close>,
  the two \<^verbatim>\<open>kind\<close> fields are \<open>jobKind\<close> and \<open>stepKind\<close>, the job's \<^verbatim>\<open>id\<close> is \<open>jobId\<close>, and
  the fields \<^verbatim>\<open>from\<close> and \<^verbatim>\<open>to\<close> of an edge are \<open>fromNode\<close> and \<open>toNode\<close>. The remaining
  fields of a stage (status, record and byte counts) are read by none of the functions
  embedded here and are left out.
\<close>

datatype dval = DString string | DDate jsnum

record QueryStep =
  stepKind :: string
  substeps :: "string list"

record QueryStage =
  nodeId :: string
  nodeName :: string
  steps :: "QueryStep list option"
  inputStages :: "string list option"
  startMs :: "string option"
  endMs :: "string option"
  waitMsAvg :: "string option"
  waitMsMax :: "string option"
  readMsAvg :: "string option"
  readMsMax :: "string option"
  computeMsAvg :: "string option"
  computeMsMax :: "string option"
  writeMsAvg :: "string option"
  writeMsMax :: "string option"
  isExternal :: "bool option"
  props :: "(string \<times> dval) list"

record Query =
  queryPlan :: "QueryStage list option"

record Statistics =
  query :: "Query option"
  startTime :: "string option"
  endTime :: "string option"

record Job =
  jobKind :: "string option"
  jobId :: "string option"
  statistics :: "Statistics option"

text \<open>
  An edge holds references to two stage objects. The node array is only ever appended to,
  and each of its slots holds an object of its own, so a reference is the index of the
  object in the node array; \<open>fromNode\<close> is what \<^verbatim>\<open>getNode\<close> returned, \<open>None\<close> for \<^verbatim>\<open>undefined\<close>.
\<close>

record Edge =
  fromNode :: "nat option"
  toNode :: nat
  outputName :: string

record BqQueryPlan =
  nodes :: "QueryStage list"
  edges :: "Edge list"
  isValid :: bool
  warnings :: "string list"

subsection \<open>Node lookup and the extraction of reads\<close>

text \<open>\<^verbatim>\<open>getNode\<close>: the first node with the identifier, as a reference into the node array.\<close>

fun findIndexFrom :: "nat \<Rightarrow> ('a \<Rightarrow> bool) \<Rightarrow> 'a list \<Rightarrow> nat option" where
  "findIndexFrom k P [] = None"
| "findIndexFrom k P (x # xs) = (if P x then Some k else findIndexFrom (Suc k) P xs)"

definition getNode :: "QueryStage list \<Rightarrow> string \<Rightarrow> nat option" where
  "getNode ns i = findIndexFrom 0 (\<lambda>x. nodeId x = i) ns"

text \<open>
  The callback that \<^verbatim>\<open>getReads\<close> maps over the READ steps. \<^verbatim>\<open>find\<close> gives \<^verbatim>\<open>undefined\<close> when no
  substep starts with \<^verbatim>\<open>FROM\<close> and a blank, and the call of \<^verbatim>\<open>split\<close> on it throws a
  \<^verbatim>\<open>TypeError\<close>; so does \<^verbatim>\<open>items[1].startsWith\<close> when there is no second item. The result
  is the second item, or \<^verbatim>\<open>null\<close> (\<open>None\<close>) when it starts with two underscores.
\<close>

definition readItem :: "QueryStep \<Rightarrow> jserror + string option" where
  "readItem step =
     (case find (\<lambda>substep. prefix ''FROM '' substep) (substeps step) of
        None \<Rightarrow> Inl TypeError
      | Some readSubstep \<Rightarrow>
          (case split CHR '' '' readSubstep of
             _ # item # _ \<Rightarrow> Inr (if prefix ''__'' item then None else Some item)
           | _ \<Rightarrow> Inl TypeError))"

text \<open>\<^verbatim>\<open>.filter(item => item)\<close>: \<^verbatim>\<open>null\<close> and the empty string are falsy and dropped.\<close>

fun truthyItems :: "string option list \<Rightarrow> string list" where
  "truthyItems [] = []"
| "truthyItems (None # xs) = truthyItems xs"
| "truthyItems (Some s # xs) = (if s = [] then truthyItems xs else s # truthyItems xs)"

definition getReads :: "QueryStage \<Rightarrow> jserror + string list" where
  "getReads node =
     (case steps node of
        None \<Rightarrow> Inr []
      | Some sts \<Rightarrow>
          (case mapE readItem (filter (\<lambda>step. stepKind step = ''READ'') sts) of
             Inl e \<Rightarrow> Inl e
           | Inr items \<Rightarrow>
               Inr (truthyItems items @
                    (case inputStages node of None \<Rightarrow> [] | Some ids \<Rightarrow> ids))))"

subsection \<open>Ghost nodes and edges\<close>

definition ghostNode :: "string \<Rightarrow> QueryStage" where
  "ghostNode sourceNodeId =
     \<lparr>nodeId = sourceNodeId, nodeName = sourceNodeId, steps = None, inputStages = None,
      startMs = None, endMs = None, waitMsAvg = None, waitMsMax = None,
      readMsAvg = None, readMsMax = None, computeMsAvg = None, computeMsMax = None,
      writeMsAvg = None, writeMsMax = None, isExternal = Some True, props = []\<rparr>"

text \<open>
  The body of the inner loop, for the node at index \<open>i\<close> and one of its reads: push a
  ghost node when \<^verbatim>\<open>getNode\<close> finds nothing, then push the edge, whose source is looked
  up again.
\<close>

definition addRead ::
  "nat \<Rightarrow> string \<Rightarrow> QueryStage list \<times> Edge list \<Rightarrow> string \<Rightarrow> QueryStage list \<times> Edge list" where
  "addRead i name st sourceNodeId =
     (let ns = (if getNode (fst st) sourceNodeId = None
                then fst st @ [ghostNode sourceNodeId] else fst st)
      in (ns, snd st @ [\<lparr>fromNode = getNode ns sourceNodeId, toNode = i, outputName = name\<rparr>]))"

definition forReads ::
  "nat \<Rightarrow> string \<Rightarrow> string list \<Rightarrow> QueryStage list \<times> Edge list \<Rightarrow> QueryStage list \<times> Edge list" where
  "forReads i name reads st = foldl (addRead i name) st reads"

text \<open>
  The outer loop \<^verbatim>\<open>for (const node of this.nodes)\<close>. The array iterator reads the length
  anew at every step, so the ghost nodes pushed meanwhile are visited as well; an
  exception of \<^verbatim>\<open>getReads\<close> leaves the constructor.
\<close>

definition pendingStages :: "nat \<Rightarrow> QueryStage list \<Rightarrow> nat" where
  "pendingStages i ns = length (filter (\<lambda>n. steps n \<noteq> None) (drop i ns))"

function addGhostNodesAndEdges ::
  "nat \<Rightarrow> QueryStage list \<Rightarrow> Edge list \<Rightarrow> jserror + QueryStage list \<times> Edge list" where
  "addGhostNodesAndEdges i ns es =
     (if i < length ns then
        (case getReads (ns ! i) of
           Inl e \<Rightarrow> Inl e
         | Inr reads \<Rightarrow>
             addGhostNodesAndEdges (Suc i)
               (fst (forReads i (nodeName (ns ! i)) reads (ns, es)))
               (snd (forReads i (nodeName (ns ! i)) reads (ns, es))))
      else Inr (ns, es))"
  by pat_completeness auto

text \<open>
  Termination: a ghost node has no steps and so no reads. Visiting a node with steps
  lowers the number of such nodes still to be visited, whatever is pushed; visiting a node
  without steps pushes nothing and lowers the distance to the end of the array.
\<close>

lemma getReads_no_steps: "steps n = None \<Longrightarrow> getReads n = Inr []"
  by (simp add: getReads_def)

lemma fst_addRead:
  "fst (addRead i nm st r) =
     (if getNode (fst st) r = None then fst st @ [ghostNode r] else fst st)"
  by (simp add: addRead_def Let_def)

lemma forReads_Nil: "forReads i nm [] st = st"
  by (simp add: forReads_def)

lemma forReads_Cons: "forReads i nm (r # rs) st = forReads i nm rs (addRead i nm st r)"
  by (simp add: forReads_def)

lemma forReads_nodes_append:
  "\<exists>gs. fst (forReads i nm rs st) = fst st @ gs \<and> (\<forall>g \<in> set gs. steps g = None)"
proof (induction rs arbitrary: st)
  case Nil
  show ?case by (simp add: forReads_Nil)
next
  case (Cons r rs)
  obtain gs where gs: "fst (forReads i nm rs (addRead i nm st r)) = fst (addRead i nm st r) @ gs"
    "\<forall>g \<in> set gs. steps g = None"
    using Cons.IH by blast
  show ?case
  proof (cases "getNode (fst st) r = None")
    case True
    then have "fst (forReads i nm (r # rs) st) = fst st @ (ghostNode r # gs)"
      using gs(1) by (simp add: forReads_Cons fst_addRead)
    moreover have "\<forall>g \<in> set (ghostNode r # gs). steps g = None"
      using gs(2) by (simp add: ghostNode_def)
    ultimately show ?thesis by blast
  next
    case False
    then have "fst (forReads i nm (r # rs) st) = fst st @ gs"
      using gs(1) by (simp add: forReads_Cons fst_addRead)
    then show ?thesis using gs(2) by blast
  qed
qed

lemma pendingStages_append_ghosts:
  "\<forall>g \<in> set gs. steps g = None \<Longrightarrow> i \<le> length ns \<Longrightarrow>
   pendingStages i (ns @ gs) = pendingStages i ns"
  by (simp add: pendingStages_def filter_empty_conv)

lemma pendingStages_Suc:
  "i < length ns \<Longrightarrow>
   pendingStages i ns = (if steps (ns ! i) \<noteq> None then 1 else 0) + pendingStages (Suc i) ns"
  by (simp add: pendingStages_def Cons_nth_drop_Suc [symmetric])

termination addGhostNodesAndEdges
proof (relation "(\<lambda>(i, ns, es). pendingStages i ns) <*mlex*> measure (\<lambda>(i, ns, es). length ns - i)")
  show "wf ((\<lambda>(i, ns, es). pendingStages i ns) <*mlex*> measure (\<lambda>(i, ns, es). length ns - i))"
    by (simp add: wf_mlex)
next
  fix i :: nat and ns :: "QueryStage list" and es :: "Edge list" and reads
  assume i: "i < length ns" and r: "getReads (ns ! i) = Inr reads"
  let ?st = "forReads i (nodeName (ns ! i)) reads (ns, es)"
  obtain gs where gs: "fst ?st = ns @ gs" "\<forall>g \<in> set gs. steps g = None"
    using forReads_nodes_append [of i "nodeName (ns ! i)" reads "(ns, es)"] by auto
  show "((Suc i, fst ?st, snd ?st), (i, ns, es))
        \<in> (\<lambda>(i, ns, es). pendingStages i ns) <*mlex*> measure (\<lambda>(i, ns, es). length ns - i)"
  proof (cases "steps (ns ! i) = None")
    case True
    then have "reads = []" using r by (simp add: getReads_no_steps)
    then have "?st = (ns, es)" by (simp add: forReads_Nil)
    then show ?thesis using i True
      by (simp add: mlex_iff pendingStages_Suc case_prod_beta)
  next
    case False
    have "pendingStages (Suc i) (fst ?st) = pendingStages (Suc i) ns"
      using gs i by (simp add: pendingStages_append_ghosts)
    then show ?thesis using i False
      by (simp add: mlex_iff pendingStages_Suc case_prod_beta)
  qed
qed

declare addGhostNodesAndEdges.simps [simp del]

subsection \<open>Enrichment of a stage\<close>

text \<open>\<^verbatim>\<open>node[key] = value\<close>: an existing property keeps its place, a new one goes last.\<close>

definition setProp :: "string \<Rightarrow> dval \<Rightarrow> QueryStage \<Rightarrow> QueryStage" where
  "setProp key v node = node\<lparr>props := AList.update key v (props node)\<rparr>"

definition avgMax :: "runtime \<Rightarrow> string option \<Rightarrow> string option \<Rightarrow> dval" where
  "avgMax rt avg mx =
     DString (''avg: '' @ toLocaleString rt (Number rt avg) @
              '' max: '' @ toLocaleString rt (Number rt mx))"

definition improveNodeInfo :: "runtime \<Rightarrow> Statistics \<Rightarrow> QueryStage \<Rightarrow> QueryStage" where
  "improveNodeInfo rt stats node =
     (if \<not> truthy (startMs node) \<or> \<not> truthy (endMs node) then node
      else
        let endMs' = Number rt (endMs node);
            startMs' = Number rt (startMs node);
            jobStartMs = Number rt (startTime stats);
            jobEndMs = Number rt (endTime stats)
        in if isNaN startMs' \<or> isNaN endMs' \<or> isNaN jobStartMs \<or> isNaN jobEndMs then node
           else
             let duration = numSubtract rt endMs' startMs';
                 startPct = numDivide rt
                              (numMultiply rt (Fin 100) (numSubtract rt startMs' jobStartMs))
                              (numSubtract rt jobEndMs jobStartMs);
                 endPct = numDivide rt
                            (numMultiply rt (Fin 100) (numSubtract rt endMs' jobStartMs))
                            (numSubtract rt jobEndMs jobStartMs)
             in (setProp ''end %       ''
                   (DString (toLocaleString rt endPct @ ''% of job duration''))
                 \<circ> setProp ''start %     ''
                   (DString (toLocaleString rt startPct @ ''% of job duration''))
                 \<circ> setProp ''endTime     '' (DDate endMs')
                 \<circ> setProp ''startTime   '' (DDate startMs')
                 \<circ> setProp ''write (ms)  '' (avgMax rt (writeMsAvg node) (writeMsMax node))
                 \<circ> setProp ''compute (ms)'' (avgMax rt (computeMsAvg node) (computeMsMax node))
                 \<circ> setProp ''read (ms)   '' (avgMax rt (readMsAvg node) (readMsMax node))
                 \<circ> setProp ''wait (ms)   '' (avgMax rt (waitMsAvg node) (waitMsMax node))
                 \<circ> setProp ''durationMs  '' (DString (toLocaleString rt duration))) node)"

subsection \<open>The constructor\<close>

text \<open>
  The constructor returns the plan, with the warnings it sent to the log service, or
  throws. The read \<^verbatim>\<open>this.plan.statistics.query\<close> throws a \<^verbatim>\<open>TypeError\<close> when the document
  has no statistics block; a template literal renders an absent job identifier as
  \<^verbatim>\<open>undefined\<close>.
\<close>

definition template :: "string option \<Rightarrow> string" where
  "template x = (case x of None \<Rightarrow> ''undefined'' | Some s \<Rightarrow> s)"

definition invalidPlan :: "string \<Rightarrow> BqQueryPlan" where
  "invalidPlan msg = \<lparr>nodes = [], edges = [], isValid = False, warnings = [msg]\<rparr>"

definition newBqQueryPlan :: "runtime \<Rightarrow> Job \<Rightarrow> jserror + BqQueryPlan" where
  "newBqQueryPlan rt plan =
     (case jobKind plan of
        None \<Rightarrow> Inr (invalidPlan ''No plan document found in job.'')
      | Some k \<Rightarrow>
          if \<not> prefix ''bigquery'' k then
            Inr (invalidPlan
                  (''Retrieved document is not of kind bigquery but of kind '' @ k @ ''.''))
          else
            (case statistics plan of
               None \<Rightarrow> Inl TypeError
             | Some stats \<Rightarrow>
                 (case (case query stats of None \<Rightarrow> None | Some q \<Rightarrow> queryPlan q) of
                    None \<Rightarrow> Inr (invalidPlan (''No query found in job '' @ template (jobId plan)))
                  | Some qp \<Rightarrow>
                      (case addGhostNodesAndEdges 0 qp [] of
                         Inl e \<Rightarrow> Inl e
                       | Inr (ns, es) \<Rightarrow>
                           Inr \<lparr>nodes = map (improveNodeInfo rt stats) ns, edges = es,
                                isValid = True, warnings = []\<rparr>))))"

subsection \<open>Chart rows and colours\<close>

text \<open>
  The rows \<^verbatim>\<open>asGoogleGantt\<close> hands to the chart library; without the container element it
  logs an error and builds no table (\<open>None\<close>).
\<close>

datatype cell = CString string | CDate jsnum | CNumber jsnum | CNull

definition internalNodes :: "QueryStage list \<Rightarrow> QueryStage list" where
  "internalNodes ns =
     filter (\<lambda>node. (case isExternal node of None \<Rightarrow> True | Some b \<Rightarrow> \<not> b)) ns"

definition ganttRow :: "runtime \<Rightarrow> QueryStage \<Rightarrow> cell list" where
  "ganttRow rt node =
     [CString (nodeId node), CString (nodeName node), CDate (Number rt (startMs node)),
      CDate (Number rt (endMs node)), CNull, CNumber (Fin 100), CNull]"

definition asGoogleGantt :: "runtime \<Rightarrow> bool \<Rightarrow> BqQueryPlan \<Rightarrow> cell list list option" where
  "asGoogleGantt rt containerFound p =
     (if \<not> containerFound then None
      else Some (map (ganttRow rt) (internalNodes (nodes p))))"

definition palette :: "string list" where
  "palette = [''#fbc02d'', ''#7b1fa2'', ''#ef6c00'', ''#1565c0'']"

definition timeList :: "runtime \<Rightarrow> QueryStage \<Rightarrow> jsnum list" where
  "timeList rt node =
     [Number rt (waitMsAvg node), Number rt (readMsAvg node),
      Number rt (computeMsAvg node), Number rt (waitMsAvg node)]"

definition colorForMaxTime :: "runtime \<Rightarrow> QueryStage \<Rightarrow> string option" where
  "colorForMaxTime rt node =
     (if truthy (waitMsAvg node) then
        (let maxTime = mathMax (timeList rt node);
             index = indexOf (timeList rt node) maxTime
         in arrayGet palette index)
      else Some ''#2290FF'')"

subsection \<open>A host for evaluation\<close>

text \<open>
  To run the model on a concrete document the host functions need values.
  \<open>hostRuntime\<close> stands in for the host on the inputs used in this theory. It reads a
  string of decimal digits as the number it writes and the empty string as \<open>0\<close>, as the
  host does, and every other string as \<open>NaN\<close> (the host also accepts signs, fractions,
  exponents, other radixes and surrounding blanks). It writes a number in the English
  locale, with the digits of the integer part in groups of three and at most three
  fraction digits, rounded half away from zero. Its arithmetic follows IEEE 754 on \<open>NaN\<close>,
  the infinities and the signs of zero and is exact on finite operands: it neither rounds
  nor overflows, so it agrees with the host wherever the exact result is a double, as for
  the integers of the sample documents. The theorems are stated for every runtime; only
  their instances at the sample documents use this one.
\<close>

fun negative :: "jsnum \<Rightarrow> bool" where
  "negative NegInf = True"
| "negative NegZero = True"
| "negative (Fin x) = (x < 0)"
| "negative _ = False"

fun magnitude :: "jsnum \<Rightarrow> rat" where
  "magnitude (Fin x) = x"
| "magnitude _ = 0"

fun finiteNum :: "jsnum \<Rightarrow> bool" where
  "finiteNum NegZero = True"
| "finiteNum (Fin x) = True"
| "finiteNum _ = False"

definition signedZero :: "bool \<Rightarrow> jsnum" where
  "signedZero neg = (if neg then NegZero else Fin 0)"

definition signedInf :: "bool \<Rightarrow> jsnum" where
  "signedInf neg = (if neg then NegInf else PosInf)"

fun exactNeg :: "jsnum \<Rightarrow> jsnum" where
  "exactNeg NaN = NaN"
| "exactNeg NegInf = PosInf"
| "exactNeg PosInf = NegInf"
| "exactNeg NegZero = Fin 0"
| "exactNeg (Fin x) = (if x = 0 then NegZero else Fin (- x))"

definition exactAdd :: "jsnum \<Rightarrow> jsnum \<Rightarrow> jsnum" where
  "exactAdd a b =
     (if isNaN a \<or> isNaN b then NaN
      else if finiteNum a \<and> finiteNum b then
        (if magnitude a + magnitude b = 0
         then signedZero (a = NegZero \<and> b = NegZero)
         else Fin (magnitude a + magnitude b))
      else if finiteNum a then b
      else if finiteNum b then a
      else if a = b then a else NaN)"

definition exactSub :: "jsnum \<Rightarrow> jsnum \<Rightarrow> jsnum" where
  "exactSub a b = exactAdd a (exactNeg b)"

definition exactMul :: "jsnum \<Rightarrow> jsnum \<Rightarrow> jsnum" where
  "exactMul a b =
     (if isNaN a \<or> isNaN b then NaN
      else if finiteNum a \<and> finiteNum b then
        (if magnitude a * magnitude b = 0
         then signedZero (negative a \<noteq> negative b)
         else Fin (magnitude a * magnitude b))
      else if isZero a \<or> isZero b then NaN
      else signedInf (negative a \<noteq> negative b))"

definition exactDiv :: "jsnum \<Rightarrow> jsnum \<Rightarrow> jsnum" where
  "exactDiv a b =
     (if isNaN a \<or> isNaN b then NaN
      else if finiteNum a \<and> finiteNum b then
        (if isZero b then (if isZero a then NaN else signedInf (negative a \<noteq> negative b))
         else if isZero a then signedZero (negative a \<noteq> negative b)
         else Fin (magnitude a / magnitude b))
      else if finiteNum a then signedZero (negative a \<noteq> negative b)
      else if finiteNum b then signedInf (negative a \<noteq> negative b)
      else NaN)"

fun parseDigits :: "nat \<Rightarrow> string \<Rightarrow> nat option" where
  "parseDigits acc [] = Some acc"
| "parseDigits acc (c # cs) =
     (if 48 \<le> (of_char c :: nat) \<and> (of_char c :: nat) \<le> 57
      then parseDigits (10 * acc + (of_char c - 48)) cs else None)"

definition decimalToNumber :: "string \<Rightarrow> jsnum" where
  "decimalToNumber s = (case parseDigits 0 s of None \<Rightarrow> NaN | Some n \<Rightarrow> Fin (of_nat n))"

definition digitChar :: "nat \<Rightarrow> char" where
  "digitChar d = ''0123456789'' ! d"

fun threeDigits :: "nat \<Rightarrow> string" where
  "threeDigits n = [digitChar (n div 100 mod 10), digitChar (n div 10 mod 10), digitChar (n mod 10)]"

fun dropLeadingZeros :: "string \<Rightarrow> string" where
  "dropLeadingZeros (c # d # cs) = (if c = CHR ''0'' then dropLeadingZeros (d # cs) else c # d # cs)"
| "dropLeadingZeros cs = cs"

fun grouped :: "nat \<Rightarrow> string" where
  "grouped n =
     (if n < 1000 then dropLeadingZeros (threeDigits n)
      else grouped (n div 1000) @ '','' @ threeDigits (n mod 1000))"

declare grouped.simps [simp del]

definition fractionDigits :: "nat \<Rightarrow> string" where
  "fractionDigits f =
     (if f = 0 then [] else ''.'' @ rev (dropWhile (\<lambda>c. c = CHR ''0'') (rev (threeDigits f))))"

definition enLocale :: "jsnum \<Rightarrow> string" where
  "enLocale x =
     (case x of
        NaN \<Rightarrow> ''NaN''
      | NegZero \<Rightarrow> ''-0''
      | PosInf \<Rightarrow> [CHR 0xE2, CHR 0x88, CHR 0x9E]
      | NegInf \<Rightarrow> ''-'' @ [CHR 0xE2, CHR 0x88, CHR 0x9E]
      | Fin q \<Rightarrow>
          (case quotient_of \<bar>q\<bar> of
             (a, b) \<Rightarrow>
               (let thousandths = nat ((2000 * a + b) div (2 * b))
                in (if q < 0 then ''-'' else []) @
                   grouped (thousandths div 1000) @
                   fractionDigits (thousandths mod 1000))))"

definition hostRuntime :: runtime where
  "hostRuntime =
     \<lparr>StringToNumber = decimalToNumber, toLocaleString = enLocale,
      numSubtract = exactSub, numMultiply = exactMul, numDivide = exactDiv\<rparr>"

subsection \<open>Sample documents\<close>

text \<open>The documents and stages at which the theorems below are instantiated.\<close>

definition sampleStats :: Statistics where
  "sampleStats = \<lparr>query = None, startTime = Some ''0'', endTime = Some ''10000''\<rparr>"

definition sampleStage :: QueryStage where
  "sampleStage =
     \<lparr>nodeId = ''0'', nodeName = ''S00: Input'',
      steps = Some [\<lparr>stepKind = ''READ'', substeps = [''$1:name'', ''FROM project.dataset.names'']\<rparr>,
                    \<lparr>stepKind = ''WRITE'', substeps = [''$1'', ''TO __stage00_output'']\<rparr>],
      inputStages = None, startMs = Some ''1000'', endMs = Some ''3000'',
      waitMsAvg = Some ''5'', waitMsMax = Some ''9'', readMsAvg = Some ''7'', readMsMax = Some ''8'',
      computeMsAvg = Some ''3'', computeMsMax = Some ''4'', writeMsAvg = Some ''1'',
      writeMsMax = Some ''2'', isExternal = None, props = []\<rparr>"

definition noKindJob :: Job where
  "noKindJob = \<lparr>jobKind = None, jobId = Some ''job_1'', statistics = None\<rparr>"

definition otherKindJob :: Job where
  "otherKindJob = \<lparr>jobKind = Some ''storage#object'', jobId = Some ''job_1'', statistics = None\<rparr>"

definition noQueryJob :: Job where
  "noQueryJob = \<lparr>jobKind = Some ''bigquery#job'', jobId = Some ''job_1'',
      statistics = Some \<lparr>query = None, startTime = Some ''0'', endTime = Some ''10000''\<rparr>\<rparr>"

definition emptyPlanJob :: Job where
  "emptyPlanJob = \<lparr>jobKind = Some ''bigquery#job'', jobId = Some ''job_1'',
      statistics = Some \<lparr>query = Some \<lparr>queryPlan = Some []\<rparr>,
                         startTime = Some ''0'', endTime = Some ''10000''\<rparr>\<rparr>"

definition outputStage :: QueryStage where
  "outputStage =
     \<lparr>nodeId = ''1'', nodeName = ''S01: Output'',
      steps = Some [\<lparr>stepKind = ''READ'', substeps = [''$1'', ''FROM __stage00_output'']\<rparr>],
      inputStages = Some [''0''], startMs = None, endMs = None,
      waitMsAvg = None, waitMsMax = None, readMsAvg = None, readMsMax = None,
      computeMsAvg = None, computeMsMax = None, writeMsAvg = None,
      writeMsMax = None, isExternal = None, props = []\<rparr>"

definition sampleJobStats :: Statistics where
  "sampleJobStats =
     \<lparr>query = Some \<lparr>queryPlan = Some [sampleStage, outputStage]\<rparr>,
      startTime = Some ''0'', endTime = Some ''10000''\<rparr>"

definition sampleJob :: Job where
  "sampleJob =
     \<lparr>jobKind = Some ''bigquery#job'', jobId = Some ''job_1'', statistics = Some sampleJobStats\<rparr>"

definition sampleResult :: BqQueryPlan where
  "sampleResult =
     \<lparr>nodes = [improveNodeInfo hostRuntime sampleJobStats sampleStage, outputStage,
               ghostNode ''project.dataset.names''],
      edges = [\<lparr>fromNode = Some 2, toNode = 0, outputName = ''S00: Input''\<rparr>,
               \<lparr>fromNode = Some 0, toNode = 1, outputName = ''S01: Output''\<rparr>],
      isValid = True, warnings = []\<rparr>"

definition brokenStage :: QueryStage where
  "brokenStage = sampleStage\<lparr>startMs := Some ''soon''\<rparr>"

definition samplePlan :: BqQueryPlan where
  "samplePlan =
     \<lparr>nodes = [sampleStage, ghostNode ''project.dataset.names''],
      edges = [\<lparr>fromNode = Some 1, toNode = 0, outputName = ''S00: Input''\<rparr>],
      isValid = True, warnings = []\<rparr>"


definition noFromStage :: QueryStage where
  "noFromStage =
     \<lparr>nodeId = ''0'', nodeName = ''S00: Input'',
      steps = Some [\<lparr>stepKind = ''READ'', substeps = [''$1:name'', ''$2:year'']\<rparr>],
      inputStages = None, startMs = Some ''1000'', endMs = Some ''3000'',
      waitMsAvg = None, waitMsMax = None, readMsAvg = None, readMsMax = None,
      computeMsAvg = None, computeMsMax = None, writeMsAvg = None,
      writeMsMax = None, isExternal = None, props = []\<rparr>"

definition noFromJob :: Job where
  "noFromJob =
     \<lparr>jobKind = Some ''bigquery#job'', jobId = Some ''job_1'',
      statistics = Some \<lparr>query = Some \<lparr>queryPlan = Some [noFromStage]\<rparr>,
                         startTime = Some ''0'', endTime = Some ''10000''\<rparr>\<rparr>"

definition noStatisticsJob :: Job where
  "noStatisticsJob = \<lparr>jobKind = Some ''bigquery#job'', jobId = Some ''job_1'', statistics = None\<rparr>"

definition underscoreStage :: QueryStage where
  "underscoreStage =
     \<lparr>nodeId = ''1'', nodeName = ''S01: Output'',
      steps = Some [\<lparr>stepKind = ''COMPUTE'', substeps = [''$10 := SUM($1)'']\<rparr>],
      inputStages = Some [''__stage00_output''], startMs = None, endMs = None,
      waitMsAvg = None, waitMsMax = None, readMsAvg = None, readMsMax = None,
      computeMsAvg = None, computeMsMax = None, writeMsAvg = None,
      writeMsMax = None, isExternal = None, props = []\<rparr>"

definition underscoreStats :: Statistics where
  "underscoreStats =
     \<lparr>query = Some \<lparr>queryPlan = Some [underscoreStage]\<rparr>,
      startTime = Some ''0'', endTime = Some ''10000''\<rparr>"

definition underscoreJob :: Job where
  "underscoreJob =
     \<lparr>jobKind = Some ''bigquery#job'', jobId = Some ''job_1'', statistics = Some underscoreStats\<rparr>"

definition underscoreResult :: BqQueryPlan where
  "underscoreResult =
     \<lparr>nodes = [underscoreStage, ghostNode ''__stage00_output''],
      edges = [\<lparr>fromNode = Some 1, toNode = 0, outputName = ''S01: Output''\<rparr>],
      isValid = True, warnings = []\<rparr>"

definition waitOnlyStage :: QueryStage where
  "waitOnlyStage =
     \<lparr>nodeId = ''0'', nodeName = ''S00: Input'', steps = Some [], inputStages = None,
      startMs = Some ''1000'', endMs = Some ''3000'',
      waitMsAvg = Some ''5'', waitMsMax = Some ''9'', readMsAvg = None, readMsMax = None,
      computeMsAvg = None, computeMsMax = None, writeMsAvg = None,
      writeMsMax = None, isExternal = None, props = []\<rparr>"

definition kindOnlyJob :: Job where
  "kindOnlyJob = \<lparr>jobKind = Some ''bigquery#job'', jobId = Some ''job_2'', statistics = None\<rparr>"

definition steplessStage :: QueryStage where
  "steplessStage =
     \<lparr>nodeId = ''1'', nodeName = ''S01: Output'', steps = None,
      inputStages = Some [''0'', ''9''], startMs = None, endMs = None,
      waitMsAvg = None, waitMsMax = None, readMsAvg = None, readMsMax = None,
      computeMsAvg = None, computeMsMax = None, writeMsAvg = None,
      writeMsMax = None, isExternal = None, props = []\<rparr>"





definition sampleReadStep :: QueryStep where
  "sampleReadStep = \<lparr>stepKind = ''READ'', substeps = [''$1:name'', ''FROM project.dataset.names'']\<rparr>"

subsection \<open>Auxiliary notions for the statements\<close>

text \<open>
  The keys under which \<^verbatim>\<open>improveNodeInfo\<close> stores display values, and the condition under
  which it does: both stage timestamps truthy, and none of the four conversions \<open>NaN\<close>.
\<close>

definition displayKeys :: "string list" where
  "displayKeys =
     [''durationMs  '', ''wait (ms)   '', ''read (ms)   '', ''compute (ms)'', ''write (ms)  '',
      ''startTime   '', ''endTime     '', ''start %     '', ''end %       '']"

definition timestampsUsable :: "runtime \<Rightarrow> Statistics \<Rightarrow> QueryStage \<Rightarrow> bool" where
  "timestampsUsable rt stats node =
     (truthy (startMs node) \<and> truthy (endMs node) \<and>
      \<not> isNaN (Number rt (startMs node)) \<and> \<not> isNaN (Number rt (endMs node)) \<and>
      \<not> isNaN (Number rt (startTime stats)) \<and> \<not> isNaN (Number rt (endTime stats)))"

text \<open>
  A property of the host's arithmetic that IEEE 754 guarantees: integers of magnitude at
  most \<open>2^53\<close> are doubles, and an operation on them whose exact result is such an integer
  returns it (a zero product or quotient is left out, for the sign it would carry).
\<close>

definition safeInteger :: "rat \<Rightarrow> bool" where
  "safeInteger q = (q \<in> \<int> \<and> \<bar>q\<bar> \<le> 2 ^ 53)"

definition exactOnSafeIntegers :: "runtime \<Rightarrow> bool" where
  "exactOnSafeIntegers rt =
     ((\<forall>x y. safeInteger x \<longrightarrow> safeInteger y \<longrightarrow> safeInteger (x - y) \<longrightarrow>
          numSubtract rt (Fin x) (Fin y) = Fin (x - y)) \<and>
      (\<forall>x y. safeInteger x \<longrightarrow> safeInteger y \<longrightarrow> safeInteger (x * y) \<longrightarrow> x * y \<noteq> 0 \<longrightarrow>
          numMultiply rt (Fin x) (Fin y) = Fin (x * y)) \<and>
      (\<forall>x y. safeInteger x \<longrightarrow> safeInteger y \<longrightarrow> y \<noteq> 0 \<longrightarrow> safeInteger (x / y) \<longrightarrow>
          x / y \<noteq> 0 \<longrightarrow> numDivide rt (Fin x) (Fin y) = Fin (x / y)))"







text \<open>
  The reads of a stage when \<^verbatim>\<open>getReads\<close> returns (none when it throws); the identifiers in
  a list of reads that match none of the known ones, each once, in the order of their
  first occurrence; and the edge the constructor pushes for a read \<open>r\<close> of the node at
  index \<open>j\<close>, relative to a node array.
\<close>

definition readsOf :: "QueryStage \<Rightarrow> string list" where
  "readsOf node = (case getReads node of Inl e \<Rightarrow> [] | Inr reads \<Rightarrow> reads)"

fun newIds :: "string list \<Rightarrow> string list \<Rightarrow> string list" where
  "newIds known [] = []"
| "newIds known (r # rs) =
     (if r \<in> set known then newIds known rs else r # newIds (known @ [r]) rs)"

definition edgeFor :: "QueryStage list \<Rightarrow> nat \<Rightarrow> string \<Rightarrow> Edge" where
  "edgeFor ns j r = \<lparr>fromNode = getNode ns r, toNode = j, outputName = nodeName (ns ! j)\<rparr>"

text \<open>
  A stage is well-formed for \<^verbatim>\<open>getReads\<close> when each of its READ steps has a substep that
  starts with \<^verbatim>\<open>FROM\<close> and a blank.
\<close>

definition readStepsHaveFrom :: "QueryStage \<Rightarrow> bool" where
  "readStepsHaveFrom stage =
     (case steps stage of
        None \<Rightarrow> True
      | Some sts \<Rightarrow>
          list_all (\<lambda>step. stepKind step = ''READ'' \<longrightarrow>
                             list_ex (\<lambda>substep. prefix ''FROM '' substep) (substeps step)) sts)"

section \<open>Properties\<close>

subsection \<open>Validation of the job document\<close>

lemma newBqQueryPlan_no_kind:
  "jobKind plan = None \<Longrightarrow>
   newBqQueryPlan rt plan =
     Inr \<lparr>nodes = [], edges = [], isValid = False,
          warnings = [''No plan document found in job.'']\<rparr>"
  by (simp add: newBqQueryPlan_def invalidPlan_def)

lemma newBqQueryPlan_other_kind:
  "jobKind plan = Some k \<Longrightarrow> \<not> prefix ''bigquery'' k \<Longrightarrow>
   newBqQueryPlan rt plan =
     Inr \<lparr>nodes = [], edges = [], isValid = False,
          warnings = [''Retrieved document is not of kind bigquery but of kind '' @ k @ ''.'']\<rparr>"
  by (simp add: newBqQueryPlan_def invalidPlan_def)

lemma newBqQueryPlan_no_query:
  "jobKind plan = Some k \<Longrightarrow> prefix ''bigquery'' k \<Longrightarrow> statistics plan = Some st \<Longrightarrow>
   query st = None \<or> (\<exists>q. query st = Some q \<and> queryPlan q = None) \<Longrightarrow>
   newBqQueryPlan rt plan =
     Inr \<lparr>nodes = [], edges = [], isValid = False,
          warnings = [''No query found in job '' @ template (jobId plan)]\<rparr>"
  by (auto simp add: newBqQueryPlan_def invalidPlan_def)

lemma newBqQueryPlan_query:
  "jobKind plan = Some k \<Longrightarrow> prefix ''bigquery'' k \<Longrightarrow> statistics plan = Some st \<Longrightarrow>
   query st = Some q \<Longrightarrow> queryPlan q = Some qp \<Longrightarrow>
   newBqQueryPlan rt plan =
     (case addGhostNodesAndEdges 0 qp [] of
        Inl e \<Rightarrow> Inl e
      | Inr (ns, es) \<Rightarrow>
          Inr \<lparr>nodes = map (improveNodeInfo rt st) ns, edges = es,
               isValid = True, warnings = []\<rparr>)"
  by (simp add: newBqQueryPlan_def)

text \<open>
  Claim C5, as stated, fails. A document of kind bigquery without a statistics block has
  no query plan array under its statistics block, and the constructor does not return
  the invalid plan for it: the third validation reads \<^verbatim>\<open>this.plan.statistics.query\<close> and
  throws a \<^verbatim>\<open>TypeError\<close>.
\<close>

theorem C5_counterexample:
  "jobKind kindOnlyJob = Some ''bigquery#job'' \<and> statistics kindOnlyJob = None \<and>
   newBqQueryPlan hostRuntime kindOnlyJob = Inl TypeError"
  by (simp add: newBqQueryPlan_def kindOnlyJob_def)

text \<open>
  Claim C5, amended. A job document without the \<^verbatim>\<open>kind\<close> field, or whose kind does not
  start with \<^verbatim>\<open>bigquery\<close>, or that has a statistics block which holds no query plan array
  (no \<^verbatim>\<open>query\<close>, or a query without \<^verbatim>\<open>queryPlan\<close>), gives a plan with \<open>isValid = False\<close>, no
  node and no edge, and exactly one warning is sent to the log service. For a document of
  kind bigquery without a statistics block the constructor throws. When the three
  validations pass, the plan that results has \<open>isValid = True\<close> and no warning was sent.
\<close>

theorem C5_validation:
  "(jobKind plan = None \<longrightarrow>
      newBqQueryPlan rt plan =
        Inr \<lparr>nodes = [], edges = [], isValid = False,
             warnings = [''No plan document found in job.'']\<rparr>) \<and>
   (\<forall>k. jobKind plan = Some k \<longrightarrow> \<not> prefix ''bigquery'' k \<longrightarrow>
      newBqQueryPlan rt plan =
        Inr \<lparr>nodes = [], edges = [], isValid = False,
             warnings = [''Retrieved document is not of kind bigquery but of kind '' @ k @ ''.'']\<rparr>) \<and>
   (\<forall>k st. jobKind plan = Some k \<longrightarrow> prefix ''bigquery'' k \<longrightarrow> statistics plan = Some st \<longrightarrow>
      (query st = None \<or> (\<exists>q. query st = Some q \<and> queryPlan q = None)) \<longrightarrow>
      newBqQueryPlan rt plan =
        Inr \<lparr>nodes = [], edges = [], isValid = False,
             warnings = [''No query found in job '' @ template (jobId plan)]\<rparr>) \<and>
   (\<forall>k. jobKind plan = Some k \<longrightarrow> prefix ''bigquery'' k \<longrightarrow> statistics plan = None \<longrightarrow>
      newBqQueryPlan rt plan = Inl TypeError) \<and>
   (\<forall>k st q qp p. jobKind plan = Some k \<longrightarrow> prefix ''bigquery'' k \<longrightarrow>
      statistics plan = Some st \<longrightarrow> query st = Some q \<longrightarrow> queryPlan q = Some qp \<longrightarrow>
      newBqQueryPlan rt plan = Inr p \<longrightarrow> isValid p \<and> warnings p = [])"
proof (intro conjI allI impI)
  show "jobKind plan = None \<Longrightarrow>
      newBqQueryPlan rt plan =
        Inr \<lparr>nodes = [], edges = [], isValid = False,
             warnings = [''No plan document found in job.'']\<rparr>"
    by (rule newBqQueryPlan_no_kind)
next
  fix k assume "jobKind plan = Some k" "\<not> prefix ''bigquery'' k"
  then show "newBqQueryPlan rt plan =
        Inr \<lparr>nodes = [], edges = [], isValid = False,
             warnings = [''Retrieved document is not of kind bigquery but of kind '' @ k @ ''.'']\<rparr>"
    by (rule newBqQueryPlan_other_kind)
next
  fix k st
  assume "jobKind plan = Some k" "prefix ''bigquery'' k" "statistics plan = Some st"
    "query st = None \<or> (\<exists>q. query st = Some q \<and> queryPlan q = None)"
  then show "newBqQueryPlan rt plan =
        Inr \<lparr>nodes = [], edges = [], isValid = False,
             warnings = [''No query found in job '' @ template (jobId plan)]\<rparr>"
    by (rule newBqQueryPlan_no_query)
next
  fix k
  assume "jobKind plan = Some k" "prefix ''bigquery'' k" "statistics plan = None"
  then show "newBqQueryPlan rt plan = Inl TypeError"
    by (simp add: newBqQueryPlan_def)
next
  fix k st q qp p
  assume h: "jobKind plan = Some k" "prefix ''bigquery'' k" "statistics plan = Some st"
    "query st = Some q" "queryPlan q = Some qp" and p: "newBqQueryPlan rt plan = Inr p"
  from p show "isValid p"
    unfolding newBqQueryPlan_query [OF h] by (auto split: sum.splits prod.splits)
  from p show "warnings p = []"
    unfolding newBqQueryPlan_query [OF h] by (auto split: sum.splits prod.splits)
qed

theorem C5_validation_witness:
  "newBqQueryPlan hostRuntime noKindJob =
     Inr \<lparr>nodes = [], edges = [], isValid = False,
          warnings = [''No plan document found in job.'']\<rparr> \<and>
   newBqQueryPlan hostRuntime otherKindJob =
     Inr \<lparr>nodes = [], edges = [], isValid = False,
          warnings = [''Retrieved document is not of kind bigquery but of kind storage#object.'']\<rparr> \<and>
   newBqQueryPlan hostRuntime noQueryJob =
     Inr \<lparr>nodes = [], edges = [], isValid = False,
          warnings = [''No query found in job job_1'']\<rparr> \<and>
   newBqQueryPlan hostRuntime kindOnlyJob = Inl TypeError \<and>
   newBqQueryPlan hostRuntime emptyPlanJob =
     Inr \<lparr>nodes = [], edges = [], isValid = True, warnings = []\<rparr>"
proof -
  have a: "jobKind noKindJob = None"
    by (simp add: noKindJob_def)
  have b: "jobKind otherKindJob = Some ''storage#object''" "\<not> prefix ''bigquery'' ''storage#object''"
    by (simp_all add: otherKindJob_def)
  have c: "jobKind noQueryJob = Some ''bigquery#job''" "prefix ''bigquery'' ''bigquery#job''"
    "statistics noQueryJob = Some \<lparr>query = None, startTime = Some ''0'', endTime = Some ''10000''\<rparr>"
    "query \<lparr>query = None, startTime = Some ''0'', endTime = Some ''10000''\<rparr> = None \<or>
     (\<exists>q. query \<lparr>query = None, startTime = Some ''0'', endTime = Some ''10000''\<rparr> = Some q \<and> queryPlan q = None)"
    by (simp_all add: noQueryJob_def)
  have t: "template (jobId noQueryJob) = ''job_1''"
    by (simp add: noQueryJob_def template_def)
  have d: "jobKind emptyPlanJob = Some ''bigquery#job''"
    "statistics emptyPlanJob = Some \<lparr>query = Some \<lparr>queryPlan = Some []\<rparr>,
                         startTime = Some ''0'', endTime = Some ''10000''\<rparr>"
    "query \<lparr>query = Some \<lparr>queryPlan = Some []\<rparr>,
                         startTime = Some ''0'', endTime = Some ''10000''\<rparr> = Some \<lparr>queryPlan = Some []\<rparr>"
    "queryPlan \<lparr>queryPlan = Some []\<rparr> = Some []"
    by (simp_all add: emptyPlanJob_def)
  have e: "newBqQueryPlan hostRuntime emptyPlanJob =
      Inr \<lparr>nodes = [], edges = [], isValid = True, warnings = []\<rparr>"
    by (simp add: newBqQueryPlan_def emptyPlanJob_def addGhostNodesAndEdges.simps)
  have v: "isValid \<lparr>nodes = [], edges = [], isValid = True, warnings = []\<rparr> \<and>
           warnings \<lparr>nodes = [], edges = [], isValid = True, warnings = []\<rparr> = []"
    using C5_validation [of emptyPlanJob hostRuntime] d c(2) e by blast
  have 1: "newBqQueryPlan hostRuntime noKindJob =
     Inr \<lparr>nodes = [], edges = [], isValid = False,
          warnings = [''No plan document found in job.'']\<rparr>"
    using C5_validation [of noKindJob hostRuntime] a by blast
  have 2: "newBqQueryPlan hostRuntime otherKindJob =
     Inr \<lparr>nodes = [], edges = [], isValid = False,
          warnings = [''Retrieved document is not of kind bigquery but of kind '' @ ''storage#object'' @ ''.'']\<rparr>"
    using C5_validation [of otherKindJob hostRuntime] b by blast
  have 3: "newBqQueryPlan hostRuntime noQueryJob =
     Inr \<lparr>nodes = [], edges = [], isValid = False,
          warnings = [''No query found in job '' @ template (jobId noQueryJob)]\<rparr>"
    using C5_validation [of noQueryJob hostRuntime] c by blast
  have f: "jobKind kindOnlyJob = Some ''bigquery#job''" "statistics kindOnlyJob = None"
    by (simp_all add: kindOnlyJob_def)
  have 4: "newBqQueryPlan hostRuntime kindOnlyJob = Inl TypeError"
    using C5_validation [of kindOnlyJob hostRuntime] f c(2) by blast
  show ?thesis
    using 1 2 3 4 e v by (simp add: t)
qed

subsection \<open>Enrichment\<close>

lemma improveNodeInfo_skip:
  "\<not> timestampsUsable rt stats node \<Longrightarrow> improveNodeInfo rt stats node = node"
  by (auto simp add: improveNodeInfo_def timestampsUsable_def Let_def)

lemma improveNodeInfo_enrich:
  "timestampsUsable rt stats node \<Longrightarrow>
   improveNodeInfo rt stats node =
     node\<lparr>props :=
       AList.update ''end %       ''
         (DString (toLocaleString rt
            (numDivide rt (numMultiply rt (Fin 100) (numSubtract rt (Number rt (endMs node)) (Number rt (startTime stats))))
                   (numSubtract rt (Number rt (endTime stats)) (Number rt (startTime stats)))) @
            ''% of job duration''))
       (AList.update ''start %     ''
         (DString (toLocaleString rt
            (numDivide rt (numMultiply rt (Fin 100) (numSubtract rt (Number rt (startMs node)) (Number rt (startTime stats))))
                   (numSubtract rt (Number rt (endTime stats)) (Number rt (startTime stats)))) @
            ''% of job duration''))
       (AList.update ''endTime     '' (DDate (Number rt (endMs node)))
       (AList.update ''startTime   '' (DDate (Number rt (startMs node)))
       (AList.update ''write (ms)  '' (avgMax rt (writeMsAvg node) (writeMsMax node))
       (AList.update ''compute (ms)'' (avgMax rt (computeMsAvg node) (computeMsMax node))
       (AList.update ''read (ms)   '' (avgMax rt (readMsAvg node) (readMsMax node))
       (AList.update ''wait (ms)   '' (avgMax rt (waitMsAvg node) (waitMsMax node))
       (AList.update ''durationMs  ''
         (DString (toLocaleString rt (numSubtract rt (Number rt (endMs node)) (Number rt (startMs node)))))
         (props node)))))))))\<rparr>"
  by (simp add: improveNodeInfo_def timestampsUsable_def Let_def setProp_def)

lemma improveNodeInfo_frame:
  "improveNodeInfo rt stats node = node\<lparr>props := props (improveNodeInfo rt stats node)\<rparr>"
  by (cases "timestampsUsable rt stats node")
     (simp_all add: improveNodeInfo_skip improveNodeInfo_enrich)

lemma improveNodeInfo_other_keys:
  "k \<notin> set displayKeys \<Longrightarrow>
   map_of (props (improveNodeInfo rt stats node)) k = map_of (props node) k"
  by (cases "timestampsUsable rt stats node")
     (simp_all add: improveNodeInfo_skip improveNodeInfo_enrich update_conv' displayKeys_def)

lemma improveNodeInfo_keeps_keys:
  "fst ` set (props node) \<subseteq> fst ` set (props (improveNodeInfo rt stats node))"
  by (cases "timestampsUsable rt stats node")
     (auto simp add: improveNodeInfo_skip improveNodeInfo_enrich dom_update)

lemma improveNodeInfo_new_keys:
  "fst ` set (props (improveNodeInfo rt stats node)) \<subseteq> fst ` set (props node) \<union> set displayKeys"
  by (cases "timestampsUsable rt stats node")
     (auto simp add: improveNodeInfo_skip improveNodeInfo_enrich dom_update displayKeys_def)


lemma newBqQueryPlan_valid_cases:
  assumes "newBqQueryPlan rt plan = Inr p" "isValid p"
  shows "\<exists>k st q qp ns.
           jobKind plan = Some k \<and> prefix ''bigquery'' k \<and> statistics plan = Some st \<and>
           query st = Some q \<and> queryPlan q = Some qp \<and>
           addGhostNodesAndEdges 0 qp [] = Inr (ns, edges p) \<and>
           nodes p = map (improveNodeInfo rt st) ns \<and> warnings p = []"
proof (cases "jobKind plan")
  case None
  then show ?thesis using assms by (auto simp add: newBqQueryPlan_no_kind)
next
  case (Some k)
  show ?thesis
  proof (cases "prefix ''bigquery'' k")
    case False
    then show ?thesis using assms Some by (auto simp add: newBqQueryPlan_other_kind)
  next
    case True
    show ?thesis
    proof (cases "statistics plan")
      case None
      then show ?thesis using assms Some True by (simp add: newBqQueryPlan_def)
    next
      case st: (Some st)
      show ?thesis
      proof (cases "query st = None \<or> (\<exists>q. query st = Some q \<and> queryPlan q = None)")
        case True
        then show ?thesis
          using assms newBqQueryPlan_no_query [OF Some \<open>prefix ''bigquery'' k\<close> st True, of rt]
          by auto
      next
        case False
        then obtain q qp where q: "query st = Some q" "queryPlan q = Some qp"
          by auto
        show ?thesis
          using assms Some \<open>prefix ''bigquery'' k\<close> st q
          unfolding newBqQueryPlan_query [OF Some \<open>prefix ''bigquery'' k\<close> st q]
          by (auto split: sum.splits prod.splits)
      qed
    qed
  qed
qed

lemma exact_subtract:
  "exactOnSafeIntegers rt \<Longrightarrow> safeInteger x \<Longrightarrow> safeInteger y \<Longrightarrow> safeInteger (x - y) \<Longrightarrow>
   numSubtract rt (Fin x) (Fin y) = Fin (x - y)"
  by (simp add: exactOnSafeIntegers_def)

lemma exact_multiply:
  "exactOnSafeIntegers rt \<Longrightarrow> safeInteger x \<Longrightarrow> safeInteger y \<Longrightarrow> safeInteger (x * y) \<Longrightarrow>
   x * y \<noteq> 0 \<Longrightarrow> numMultiply rt (Fin x) (Fin y) = Fin (x * y)"
  by (simp add: exactOnSafeIntegers_def)

lemma exact_divide:
  "exactOnSafeIntegers rt \<Longrightarrow> safeInteger x \<Longrightarrow> safeInteger y \<Longrightarrow> y \<noteq> 0 \<Longrightarrow>
   safeInteger (x / y) \<Longrightarrow> x / y \<noteq> 0 \<Longrightarrow> numDivide rt (Fin x) (Fin y) = Fin (x / y)"
  by (simp add: exactOnSafeIntegers_def)

lemma exact_percentage:
  assumes "exactOnSafeIntegers rt"
    and "safeInteger x" and "safeInteger (100 * x)" and "safeInteger d"
    and "safeInteger (100 * x / d)" and "x \<noteq> 0" and "d \<noteq> 0"
  shows "numDivide rt (numMultiply rt (Fin 100) (Fin x)) (Fin d) = Fin (100 * x / d)"
proof -
  have h: "safeInteger 100"
    by (simp add: safeInteger_def)
  have m: "numMultiply rt (Fin 100) (Fin x) = Fin (100 * x)"
    using assms(1) h assms(2,3) assms(6) by (intro exact_multiply) simp_all
  have "numDivide rt (Fin (100 * x)) (Fin d) = Fin (100 * x / d)"
    using assms(1,3,4,7,5) assms(6) by (intro exact_divide) simp_all
  then show ?thesis
    by (simp only: m)
qed

text \<open>
  Claim C6. For a stage whose \<^verbatim>\<open>startMs\<close> and \<^verbatim>\<open>endMs\<close> are numerically valid (present, not
  empty, and converted by \<^verbatim>\<open>Number\<close> to a number that is not \<open>NaN\<close>), in a job whose
  \<^verbatim>\<open>startTime\<close> and \<^verbatim>\<open>endTime\<close> convert to numbers that are not \<open>NaN\<close>, the enrichment
  stores the duration \<open>end - start\<close> and the percentages
  \<open>100 * (start - jobStart) / (jobEnd - jobStart)\<close> and
  \<open>100 * (end - jobStart) / (jobEnd - jobStart)\<close>, computed with the host's operators on
  doubles and written by \<^verbatim>\<open>toLocaleString\<close>, under the keys for the duration, the start
  percentage and the end percentage. Where the host's arithmetic is exact, as IEEE 754
  makes it on integers up to \<open>2^53\<close>, the duration of integer timestamps is their
  difference and a percentage that is such an integer, not zero, is the value of the
  formula; for start 1000, end 3000, job start 0 and job end 10000 the stored values are
  those of 2000, 10 and 30.
\<close>

theorem C6_timing_formulas:
  assumes "truthy (startMs node)" and "truthy (endMs node)"
    and "\<not> isNaN (Number rt (startMs node))" and "\<not> isNaN (Number rt (endMs node))"
    and "\<not> isNaN (Number rt (startTime stats))" and "\<not> isNaN (Number rt (endTime stats))"
  shows
    "map_of (props (improveNodeInfo rt stats node)) ''durationMs  '' =
       Some (DString (toLocaleString rt
         (numSubtract rt (Number rt (endMs node)) (Number rt (startMs node))))) \<and>
     map_of (props (improveNodeInfo rt stats node)) ''start %     '' =
       Some (DString (toLocaleString rt
         (numDivide rt
            (numMultiply rt (Fin 100)
               (numSubtract rt (Number rt (startMs node)) (Number rt (startTime stats))))
            (numSubtract rt (Number rt (endTime stats)) (Number rt (startTime stats)))) @
         ''% of job duration'')) \<and>
     map_of (props (improveNodeInfo rt stats node)) ''end %       '' =
       Some (DString (toLocaleString rt
         (numDivide rt
            (numMultiply rt (Fin 100)
               (numSubtract rt (Number rt (endMs node)) (Number rt (startTime stats))))
            (numSubtract rt (Number rt (endTime stats)) (Number rt (startTime stats)))) @
         ''% of job duration'')) \<and>
     (exactOnSafeIntegers rt \<longrightarrow>
        (\<forall>s e. Number rt (startMs node) = Fin s \<longrightarrow> Number rt (endMs node) = Fin e \<longrightarrow>
           safeInteger s \<longrightarrow> safeInteger e \<longrightarrow> safeInteger (e - s) \<longrightarrow>
           map_of (props (improveNodeInfo rt stats node)) ''durationMs  '' =
             Some (DString (toLocaleString rt (Fin (e - s)))))) \<and>
     (exactOnSafeIntegers rt \<longrightarrow>
        (\<forall>s e j0 j1. Number rt (startMs node) = Fin s \<longrightarrow> Number rt (endMs node) = Fin e \<longrightarrow>
           Number rt (startTime stats) = Fin j0 \<longrightarrow> Number rt (endTime stats) = Fin j1 \<longrightarrow>
           safeInteger s \<longrightarrow> safeInteger e \<longrightarrow> safeInteger j0 \<longrightarrow> safeInteger j1 \<longrightarrow>
           safeInteger (s - j0) \<longrightarrow> safeInteger (e - j0) \<longrightarrow> safeInteger (j1 - j0) \<longrightarrow>
           safeInteger (100 * (s - j0)) \<longrightarrow> safeInteger (100 * (e - j0)) \<longrightarrow>
           safeInteger (100 * (s - j0) / (j1 - j0)) \<longrightarrow>
           safeInteger (100 * (e - j0) / (j1 - j0)) \<longrightarrow>
           s \<noteq> j0 \<longrightarrow> e \<noteq> j0 \<longrightarrow> j1 \<noteq> j0 \<longrightarrow>
           map_of (props (improveNodeInfo rt stats node)) ''start %     '' =
             Some (DString (toLocaleString rt (Fin (100 * (s - j0) / (j1 - j0))) @
                            ''% of job duration'')) \<and>
           map_of (props (improveNodeInfo rt stats node)) ''end %       '' =
             Some (DString (toLocaleString rt (Fin (100 * (e - j0) / (j1 - j0))) @
                            ''% of job duration'')))) \<and>
     (exactOnSafeIntegers rt \<longrightarrow>
      Number rt (startMs node) = Fin 1000 \<longrightarrow> Number rt (endMs node) = Fin 3000 \<longrightarrow>
      Number rt (startTime stats) = Fin 0 \<longrightarrow> Number rt (endTime stats) = Fin 10000 \<longrightarrow>
        map_of (props (improveNodeInfo rt stats node)) ''durationMs  '' =
          Some (DString (toLocaleString rt (Fin 2000))) \<and>
        map_of (props (improveNodeInfo rt stats node)) ''start %     '' =
          Some (DString (toLocaleString rt (Fin 10) @ ''% of job duration'')) \<and>
        map_of (props (improveNodeInfo rt stats node)) ''end %       '' =
          Some (DString (toLocaleString rt (Fin 30) @ ''% of job duration'')))"
proof -
  have u: "timestampsUsable rt stats node"
    using assms by (simp add: timestampsUsable_def)
  have d: "map_of (props (improveNodeInfo rt stats node)) ''durationMs  '' =
       Some (DString (toLocaleString rt
         (numSubtract rt (Number rt (endMs node)) (Number rt (startMs node)))))"
    by (simp add: improveNodeInfo_enrich [OF u] update_conv')
  have s: "map_of (props (improveNodeInfo rt stats node)) ''start %     '' =
       Some (DString (toLocaleString rt
         (numDivide rt
            (numMultiply rt (Fin 100)
               (numSubtract rt (Number rt (startMs node)) (Number rt (startTime stats))))
            (numSubtract rt (Number rt (endTime stats)) (Number rt (startTime stats)))) @
         ''% of job duration''))"
    by (simp add: improveNodeInfo_enrich [OF u] update_conv')
  have e: "map_of (props (improveNodeInfo rt stats node)) ''end %       '' =
       Some (DString (toLocaleString rt
         (numDivide rt
            (numMultiply rt (Fin 100)
               (numSubtract rt (Number rt (endMs node)) (Number rt (startTime stats))))
            (numSubtract rt (Number rt (endTime stats)) (Number rt (startTime stats)))) @
         ''% of job duration''))"
    by (simp add: improveNodeInfo_enrich [OF u] update_conv')
  have gen: "\<forall>a b. Number rt (startMs node) = Fin a \<longrightarrow> Number rt (endMs node) = Fin b \<longrightarrow>
           safeInteger a \<longrightarrow> safeInteger b \<longrightarrow> safeInteger (b - a) \<longrightarrow>
           map_of (props (improveNodeInfo rt stats node)) ''durationMs  '' =
             Some (DString (toLocaleString rt (Fin (b - a))))"
    if x: "exactOnSafeIntegers rt"
  proof (intro allI impI)
    fix a b
    assume n: "Number rt (startMs node) = Fin a" "Number rt (endMs node) = Fin b"
      and i: "safeInteger a" "safeInteger b" "safeInteger (b - a)"
    have "numSubtract rt (Fin b) (Fin a) = Fin (b - a)"
      using x i(2,1,3) by (rule exact_subtract)
    then show "map_of (props (improveNodeInfo rt stats node)) ''durationMs  '' =
             Some (DString (toLocaleString rt (Fin (b - a))))"
      using d n by simp
  qed
  have pc: "\<forall>a b j0 j1. Number rt (startMs node) = Fin a \<longrightarrow> Number rt (endMs node) = Fin b \<longrightarrow>
           Number rt (startTime stats) = Fin j0 \<longrightarrow> Number rt (endTime stats) = Fin j1 \<longrightarrow>
           safeInteger a \<longrightarrow> safeInteger b \<longrightarrow> safeInteger j0 \<longrightarrow> safeInteger j1 \<longrightarrow>
           safeInteger (a - j0) \<longrightarrow> safeInteger (b - j0) \<longrightarrow> safeInteger (j1 - j0) \<longrightarrow>
           safeInteger (100 * (a - j0)) \<longrightarrow> safeInteger (100 * (b - j0)) \<longrightarrow>
           safeInteger (100 * (a - j0) / (j1 - j0)) \<longrightarrow>
           safeInteger (100 * (b - j0) / (j1 - j0)) \<longrightarrow>
           a \<noteq> j0 \<longrightarrow> b \<noteq> j0 \<longrightarrow> j1 \<noteq> j0 \<longrightarrow>
           map_of (props (improveNodeInfo rt stats node)) ''start %     '' =
             Some (DString (toLocaleString rt (Fin (100 * (a - j0) / (j1 - j0))) @
                            ''% of job duration'')) \<and>
           map_of (props (improveNodeInfo rt stats node)) ''end %       '' =
             Some (DString (toLocaleString rt (Fin (100 * (b - j0) / (j1 - j0))) @
                            ''% of job duration''))"
    if x: "exactOnSafeIntegers rt"
  proof (intro allI impI)
    fix a b j0 j1
    assume n: "Number rt (startMs node) = Fin a" "Number rt (endMs node) = Fin b"
      "Number rt (startTime stats) = Fin j0" "Number rt (endTime stats) = Fin j1"
      and i: "safeInteger a" "safeInteger b" "safeInteger j0" "safeInteger j1"
      and df: "safeInteger (a - j0)" "safeInteger (b - j0)" "safeInteger (j1 - j0)"
      and pr: "safeInteger (100 * (a - j0))" "safeInteger (100 * (b - j0))"
      and qu: "safeInteger (100 * (a - j0) / (j1 - j0))" "safeInteger (100 * (b - j0) / (j1 - j0))"
      and nz: "a \<noteq> j0" "b \<noteq> j0" "j1 \<noteq> j0"
    have s1: "numSubtract rt (Fin a) (Fin j0) = Fin (a - j0)"
      using x i(1,3) df(1) by (rule exact_subtract)
    have s2: "numSubtract rt (Fin b) (Fin j0) = Fin (b - j0)"
      using x i(2,3) df(2) by (rule exact_subtract)
    have s3: "numSubtract rt (Fin j1) (Fin j0) = Fin (j1 - j0)"
      using x i(4,3) df(3) by (rule exact_subtract)
    have z: "a - j0 \<noteq> 0" "b - j0 \<noteq> 0" "j1 - j0 \<noteq> 0"
      using nz by simp_all
    have p1: "numDivide rt (numMultiply rt (Fin 100) (Fin (a - j0))) (Fin (j1 - j0)) =
        Fin (100 * (a - j0) / (j1 - j0))"
      using x df(1) pr(1) df(3) qu(1) z(1) z(3) by (rule exact_percentage)
    have p2: "numDivide rt (numMultiply rt (Fin 100) (Fin (b - j0))) (Fin (j1 - j0)) =
        Fin (100 * (b - j0) / (j1 - j0))"
      using x df(2) pr(2) df(3) qu(2) z(2) z(3) by (rule exact_percentage)
    show "map_of (props (improveNodeInfo rt stats node)) ''start %     '' =
             Some (DString (toLocaleString rt (Fin (100 * (a - j0) / (j1 - j0))) @
                            ''% of job duration'')) \<and>
           map_of (props (improveNodeInfo rt stats node)) ''end %       '' =
             Some (DString (toLocaleString rt (Fin (100 * (b - j0) / (j1 - j0))) @
                            ''% of job duration''))"
      using s e by (simp only: n s1 s2 s3 p1 p2 simp_thms)
  qed
  have ex: "map_of (props (improveNodeInfo rt stats node)) ''durationMs  '' =
          Some (DString (toLocaleString rt (Fin 2000))) \<and>
        map_of (props (improveNodeInfo rt stats node)) ''start %     '' =
          Some (DString (toLocaleString rt (Fin 10) @ ''% of job duration'')) \<and>
        map_of (props (improveNodeInfo rt stats node)) ''end %       '' =
          Some (DString (toLocaleString rt (Fin 30) @ ''% of job duration''))"
    if x: "exactOnSafeIntegers rt"
      and n: "Number rt (startMs node) = Fin 1000" "Number rt (endMs node) = Fin 3000"
        "Number rt (startTime stats) = Fin 0" "Number rt (endTime stats) = Fin 10000"
  proof -
    have si: "safeInteger 0" "safeInteger 1000" "safeInteger 2000" "safeInteger 3000"
      "safeInteger 10000" "safeInteger 100000" "safeInteger 300000" "safeInteger 10"
      "safeInteger 30"
      by (simp_all add: safeInteger_def)
    have a1: "numSubtract rt (Fin 3000) (Fin 1000) = Fin 2000"
      using exact_subtract [OF x si(4) si(2)] si(3) by simp
    have a2: "numSubtract rt (Fin 1000) (Fin 0) = Fin 1000"
      using exact_subtract [OF x si(2) si(1)] si(2) by simp
    have a3: "numSubtract rt (Fin 3000) (Fin 0) = Fin 3000"
      using exact_subtract [OF x si(4) si(1)] si(4) by simp
    have a4: "numSubtract rt (Fin 10000) (Fin 0) = Fin 10000"
      using exact_subtract [OF x si(5) si(1)] si(5) by simp
    have p1: "numDivide rt (numMultiply rt (Fin 100) (Fin 1000)) (Fin 10000) = Fin 10"
      using exact_percentage [OF x si(2), of 10000] si by simp
    have p2: "numDivide rt (numMultiply rt (Fin 100) (Fin 3000)) (Fin 10000) = Fin 30"
      using exact_percentage [OF x si(4), of 10000] si by simp
    show ?thesis
      using d s e by (simp add: n a1 a2 a3 a4 p1 p2)
  qed
  show ?thesis
    using d s e gen pc ex by (intro conjI impI) blast+
qed

lemma sampleStage_numbers:
  "truthy (startMs sampleStage)" "truthy (endMs sampleStage)"
  "Number hostRuntime (startMs sampleStage) = Fin 1000"
  "Number hostRuntime (endMs sampleStage) = Fin 3000"
  "Number hostRuntime (startTime sampleStats) = Fin 0"
  "Number hostRuntime (endTime sampleStats) = Fin 10000"
  by (simp_all add: sampleStage_def sampleStats_def truthy_def Number_def hostRuntime_def
        decimalToNumber_def)

lemma enLocale_samples:
  "enLocale (Fin 2000) = ''2,000''" "enLocale (Fin 10) = ''10''" "enLocale (Fin 30) = ''30''"
  by (simp_all add: enLocale_def grouped.simps fractionDigits_def digitChar_def Let_def)

lemma exactSub_Fin: "exactSub (Fin x) (Fin y) = Fin (x - y)"
  by (simp add: exactSub_def exactAdd_def signedZero_def)

lemma exactMul_Fin: "x * y \<noteq> 0 \<Longrightarrow> exactMul (Fin x) (Fin y) = Fin (x * y)"
  by (simp add: exactMul_def)

lemma exactDiv_Fin: "y \<noteq> 0 \<Longrightarrow> x / y \<noteq> 0 \<Longrightarrow> exactDiv (Fin x) (Fin y) = Fin (x / y)"
  by (simp add: exactDiv_def)

lemma hostRuntime_exact: "exactOnSafeIntegers hostRuntime"
  by (simp add: exactOnSafeIntegers_def hostRuntime_def exactSub_Fin exactMul_Fin exactDiv_Fin)

theorem C6_timing_formulas_witness:
  "map_of (props (improveNodeInfo hostRuntime sampleStats sampleStage)) ''durationMs  '' =
     Some (DString ''2,000'') \<and>
   map_of (props (improveNodeInfo hostRuntime sampleStats sampleStage)) ''start %     '' =
     Some (DString ''10% of job duration'') \<and>
   map_of (props (improveNodeInfo hostRuntime sampleStats sampleStage)) ''end %       '' =
     Some (DString ''30% of job duration'')"
proof -
  have n: "\<not> isNaN (Number hostRuntime (startMs sampleStage))"
    "\<not> isNaN (Number hostRuntime (endMs sampleStage))"
    "\<not> isNaN (Number hostRuntime (startTime sampleStats))"
    "\<not> isNaN (Number hostRuntime (endTime sampleStats))"
    by (simp_all add: sampleStage_numbers)
  have loc: "toLocaleString hostRuntime = enLocale"
    by (simp add: hostRuntime_def)
  show ?thesis
    using C6_timing_formulas [OF sampleStage_numbers(1,2) n, THEN conjunct2, THEN conjunct2,
        THEN conjunct2, THEN conjunct2, THEN conjunct2, rule_format, OF hostRuntime_exact sampleStage_numbers(3-6)]
    by (simp add: loc enLocale_samples)
qed

subsection \<open>The sample job\<close>

lemma getReads_sampleStage: "getReads sampleStage = Inr [''project.dataset.names'']"
  by (simp add: getReads_def sampleStage_def readItem_def)

lemma getReads_outputStage: "getReads outputStage = Inr [''0'']"
  by (simp add: getReads_def outputStage_def readItem_def)

lemma getReads_ghostNode: "getReads (ghostNode s) = Inr []"
  by (simp add: getReads_def ghostNode_def)

lemma sample_graph:
  "addGhostNodesAndEdges 0 [sampleStage, outputStage] [] =
     Inr ([sampleStage, outputStage, ghostNode ''project.dataset.names''],
          [\<lparr>fromNode = Some 2, toNode = 0, outputName = ''S00: Input''\<rparr>,
           \<lparr>fromNode = Some 0, toNode = 1, outputName = ''S01: Output''\<rparr>])"
proof -
  have ids: "nodeId sampleStage = ''0''" "nodeId outputStage = ''1''"
    "nodeName sampleStage = ''S00: Input''" "nodeName outputStage = ''S01: Output''"
    "nodeId (ghostNode ''project.dataset.names'') = ''project.dataset.names''"
    by (simp_all add: sampleStage_def outputStage_def ghostNode_def)
  show ?thesis
    apply (subst addGhostNodesAndEdges.simps)
    apply (simp add: getReads_sampleStage forReads_def addRead_def getNode_def ids)
    apply (subst addGhostNodesAndEdges.simps)
    apply (simp add: getReads_outputStage forReads_def addRead_def getNode_def ids)
    apply (subst addGhostNodesAndEdges.simps)
    apply (simp add: getReads_ghostNode forReads_def addRead_def getNode_def ids)
    apply (subst addGhostNodesAndEdges.simps)
    apply simp
    done
qed

text \<open>
  Claim C7. When one of the four timestamps is missing or no valid number (a stage
  timestamp absent or empty, or one of the four conversions \<open>NaN\<close>, which is what
  \<^verbatim>\<open>Number\<close> gives for an absent field), \<^verbatim>\<open>improveNodeInfo\<close> returns the stage as it is: no
  derived field is added. It is a total function, so nothing is thrown. A ghost node has
  no timestamps and falls into this path.
\<close>

theorem C7_enrichment_skipped:
  "(\<not> truthy (startMs node) \<or> \<not> truthy (endMs node) \<or>
    isNaN (Number rt (startMs node)) \<or> isNaN (Number rt (endMs node)) \<or>
    isNaN (Number rt (startTime stats)) \<or> isNaN (Number rt (endTime stats)) \<longrightarrow>
      improveNodeInfo rt stats node = node) \<and>
   improveNodeInfo rt stats (ghostNode sourceNodeId) = ghostNode sourceNodeId"
proof (intro conjI impI)
  assume "\<not> truthy (startMs node) \<or> \<not> truthy (endMs node) \<or>
    isNaN (Number rt (startMs node)) \<or> isNaN (Number rt (endMs node)) \<or>
    isNaN (Number rt (startTime stats)) \<or> isNaN (Number rt (endTime stats))"
  then have "\<not> timestampsUsable rt stats node"
    by (auto simp add: timestampsUsable_def)
  then show "improveNodeInfo rt stats node = node"
    by (rule improveNodeInfo_skip)
next
  have "\<not> timestampsUsable rt stats (ghostNode sourceNodeId)"
    by (simp add: timestampsUsable_def ghostNode_def truthy_def)
  then show "improveNodeInfo rt stats (ghostNode sourceNodeId) = ghostNode sourceNodeId"
    by (rule improveNodeInfo_skip)
qed

theorem C7_enrichment_skipped_witness:
  "improveNodeInfo hostRuntime sampleStats brokenStage = brokenStage \<and>
   props (improveNodeInfo hostRuntime sampleStats brokenStage) = [] \<and>
   improveNodeInfo hostRuntime \<lparr>query = None, startTime = None, endTime = Some ''10000''\<rparr>
     sampleStage = sampleStage \<and>
   improveNodeInfo hostRuntime sampleStats (ghostNode ''project.dataset.names'') =
     ghostNode ''project.dataset.names''"
proof -
  have a: "isNaN (Number hostRuntime (startMs brokenStage))"
    by (simp add: brokenStage_def Number_def hostRuntime_def decimalToNumber_def)
  have b: "isNaN (Number hostRuntime
      (startTime \<lparr>query = None, startTime = None, endTime = Some ''10000''\<rparr>))"
    by (simp add: Number_def)
  have p: "props brokenStage = []"
    by (simp add: brokenStage_def sampleStage_def)
  show ?thesis
    using C7_enrichment_skipped [of brokenStage hostRuntime sampleStats "''project.dataset.names''"]
      C7_enrichment_skipped [of sampleStage hostRuntime
        "\<lparr>query = None, startTime = None, endTime = Some ''10000''\<rparr>" "[]"] a b p
    by simp
qed

subsection \<open>Chart rows\<close>

text \<open>
  Claim C8. With the container present, the rows handed to the chart are, in the order of
  the nodes, one row \<open>(id, name, start date, end date, null, 100, null)\<close> for each node
  whose \<^verbatim>\<open>isExternal\<close> is absent or false; there are as many rows as such nodes, and every
  row comes from such a node, so a node with \<^verbatim>\<open>isExternal = true\<close> gives none.
\<close>

theorem C8_chart_rows:
  "asGoogleGantt rt True p =
     Some (map (\<lambda>node. [CString (nodeId node), CString (nodeName node),
                         CDate (Number rt (startMs node)), CDate (Number rt (endMs node)),
                         CNull, CNumber (Fin 100), CNull])
               (filter (\<lambda>node. isExternal node \<noteq> Some True) (nodes p))) \<and>
   (\<forall>rows. asGoogleGantt rt True p = Some rows \<longrightarrow>
      length rows = length (filter (\<lambda>node. isExternal node \<noteq> Some True) (nodes p)) \<and>
      (\<forall>row \<in> set rows. \<exists>node \<in> set (nodes p). isExternal node \<noteq> Some True \<and>
         row = [CString (nodeId node), CString (nodeName node),
                CDate (Number rt (startMs node)), CDate (Number rt (endMs node)),
                CNull, CNumber (Fin 100), CNull]))"
proof -
  have f: "(\<lambda>node. case isExternal node of None \<Rightarrow> True | Some b \<Rightarrow> \<not> b) =
           (\<lambda>node. isExternal node \<noteq> Some True)"
    by (auto simp add: fun_eq_iff split: option.splits)
  have r: "asGoogleGantt rt True p =
     Some (map (\<lambda>node. [CString (nodeId node), CString (nodeName node),
                         CDate (Number rt (startMs node)), CDate (Number rt (endMs node)),
                         CNull, CNumber (Fin 100), CNull])
               (filter (\<lambda>node. isExternal node \<noteq> Some True) (nodes p)))"
    by (simp add: asGoogleGantt_def internalNodes_def f ganttRow_def [abs_def])
  show ?thesis
    unfolding r by auto
qed

theorem C8_chart_rows_witness:
  "asGoogleGantt hostRuntime True samplePlan =
     Some [[CString ''0'', CString ''S00: Input'', CDate (Fin 1000), CDate (Fin 3000),
            CNull, CNumber (Fin 100), CNull]]"
proof -
  have e: "isExternal sampleStage \<noteq> Some True"
    "isExternal (ghostNode ''project.dataset.names'') = Some True"
    "nodeId sampleStage = ''0''" "nodeName sampleStage = ''S00: Input''"
    by (simp_all add: sampleStage_def ghostNode_def)
  show ?thesis
    using C8_chart_rows [of hostRuntime samplePlan, THEN conjunct1]
    by (simp add: samplePlan_def e sampleStage_numbers)
qed

subsection \<open>Colours\<close>

lemma max2_cases:
  "\<not> isNaN a \<Longrightarrow> \<not> isNaN b \<Longrightarrow> (max2 a b = a \<or> max2 a b = b) \<and> \<not> isNaN (max2 a b)"
  by (simp add: max2_def)

lemma jsLe_refl: "\<not> isNaN a \<Longrightarrow> jsLe a a"
  by (cases a) simp_all

lemma jsLe_total: "\<not> isNaN a \<Longrightarrow> \<not> isNaN b \<Longrightarrow> jsLe a b \<or> jsLe b a"
  by (cases a; cases b) auto

lemma jsLe_trans: "jsLe a b \<Longrightarrow> jsLe b c \<Longrightarrow> jsLe a c"
  by (cases a; cases b; cases c) auto

lemma max2_upper:
  "\<not> isNaN a \<Longrightarrow> \<not> isNaN b \<Longrightarrow> jsLe a (max2 a b) \<and> jsLe b (max2 a b)"
  using jsLe_total [of a b] by (auto simp add: max2_def jsLe_refl)

lemma foldl_max2:
  "\<not> isNaN a \<Longrightarrow> \<forall>x \<in> set xs. \<not> isNaN x \<Longrightarrow>
   foldl max2 a xs \<in> insert a (set xs) \<and> \<not> isNaN (foldl max2 a xs) \<and>
   jsLe a (foldl max2 a xs) \<and> (\<forall>x \<in> set xs. jsLe x (foldl max2 a xs))"
proof (induction xs arbitrary: a)
  case Nil
  then show ?case by (simp add: jsLe_refl)
next
  case (Cons x xs)
  have x: "\<not> isNaN x" and xs: "\<forall>y \<in> set xs. \<not> isNaN y"
    using Cons.prems(2) by simp_all
  have m: "(max2 a x = a \<or> max2 a x = x)" "\<not> isNaN (max2 a x)"
    using max2_cases [OF Cons.prems(1) x] by simp_all
  have u: "jsLe a (max2 a x)" "jsLe x (max2 a x)"
    using max2_upper [OF Cons.prems(1) x] by simp_all
  have ih: "foldl max2 (max2 a x) xs \<in> insert (max2 a x) (set xs)"
    "\<not> isNaN (foldl max2 (max2 a x) xs)"
    "jsLe (max2 a x) (foldl max2 (max2 a x) xs)"
    "\<forall>y \<in> set xs. jsLe y (foldl max2 (max2 a x) xs)"
    using Cons.IH [OF m(2) xs] by simp_all
  have 1: "foldl max2 a (x # xs) \<in> insert a (set (x # xs))"
    using ih(1) m(1) by auto
  have 2: "jsLe a (foldl max2 a (x # xs))"
    using jsLe_trans [OF u(1) ih(3)] by simp
  have 3: "jsLe x (foldl max2 a (x # xs))"
    using jsLe_trans [OF u(2) ih(3)] by simp
  show ?case
    using 1 2 3 ih(2) ih(4) by simp
qed

lemma mathMax_Cons:
  assumes "\<not> isNaN x" "\<forall>y \<in> set xs. \<not> isNaN y"
  shows "mathMax (x # xs) \<in> set (x # xs) \<and> \<not> isNaN (mathMax (x # xs)) \<and>
         (\<forall>y \<in> set (x # xs). jsLe y (mathMax (x # xs)))"
proof -
  have s: "max2 NegInf x = x"
    using assms(1) by (cases x) (simp_all add: max2_def)
  have "mathMax (x # xs) = foldl max2 x xs"
    by (simp add: mathMax_def s)
  then show ?thesis
    using foldl_max2 [OF assms] by simp
qed

lemma indexOfFrom_first:
  "i < length xs \<Longrightarrow> strictEq (xs ! i) v \<Longrightarrow> (\<forall>j < i. \<not> strictEq (xs ! j) v) \<Longrightarrow>
   indexOfFrom k xs v = k + int i"
proof (induction xs arbitrary: i k)
  case Nil
  then show ?case by simp
next
  case (Cons x xs)
  show ?case
  proof (cases i)
    case 0
    then show ?thesis using Cons.prems by simp
  next
    case (Suc n)
    have nx: "\<not> strictEq x v"
      using Cons.prems(3) Suc by auto
    have "indexOfFrom (k + 1) xs v = k + 1 + int n"
    proof (rule Cons.IH)
      show "n < length xs" using Cons.prems(1) Suc by simp
      show "strictEq (xs ! n) v" using Cons.prems(2) Suc by simp
      show "\<forall>j < n. \<not> strictEq (xs ! j) v"
        using Cons.prems(3) Suc by auto
    qed
    then show ?thesis using nx Suc by simp
  qed
qed

lemma first_index_exists:
  "\<exists>x \<in> set xs. strictEq x v \<Longrightarrow>
   \<exists>i < length xs. strictEq (xs ! i) v \<and> (\<forall>j < i. \<not> strictEq (xs ! j) v)"
proof (induction xs)
  case Nil
  then show ?case by simp
next
  case (Cons x xs)
  show ?case
  proof (cases "strictEq x v")
    case True
    then have "0 < length (x # xs) \<and> strictEq ((x # xs) ! 0) v \<and>
      (\<forall>j < 0. \<not> strictEq ((x # xs) ! j) v)"
      by simp
    then show ?thesis by blast
  next
    case False
    then have "\<exists>y \<in> set xs. strictEq y v" using Cons.prems by auto
    then obtain i where i: "i < length xs" "strictEq (xs ! i) v" "\<forall>j < i. \<not> strictEq (xs ! j) v"
      using Cons.IH by blast
    have "\<forall>j < Suc i. \<not> strictEq ((x # xs) ! j) v"
    proof (intro allI impI)
      fix j assume "j < Suc i"
      then show "\<not> strictEq ((x # xs) ! j) v"
        using False i(3) by (cases j) auto
    qed
    then have "Suc i < length (x # xs) \<and> strictEq ((x # xs) ! Suc i) v \<and>
      (\<forall>j < Suc i. \<not> strictEq ((x # xs) ! j) v)"
      using i by simp
    then show ?thesis by blast
  qed
qed

lemma colorForMaxTime_first:
  assumes "truthy (waitMsAvg node)" "i < 4"
    and "strictEq (timeList rt node ! i) (mathMax (timeList rt node))"
    and "\<forall>j < i. \<not> strictEq (timeList rt node ! j) (mathMax (timeList rt node))"
  shows "colorForMaxTime rt node = Some (palette ! i)"
proof -
  have l: "length (timeList rt node) = 4"
    by (simp add: timeList_def)
  have "indexOf (timeList rt node) (mathMax (timeList rt node)) = int i"
    using indexOfFrom_first [of i "timeList rt node" "mathMax (timeList rt node)" 0] assms l
    by (simp add: indexOf_def)
  then show ?thesis
    using assms(1,2) by (simp add: colorForMaxTime_def Let_def arrayGet_def palette_def)
qed

lemma isNaN_iff: "isNaN a \<longleftrightarrow> a = NaN"
  by (cases a) simp_all

lemma max2_NaN: "max2 NaN b = NaN" "max2 a NaN = NaN"
  by (simp_all add: max2_def)

lemma mathMax_NaN: "\<exists>x \<in> set xs. isNaN x \<Longrightarrow> mathMax xs = NaN"
  unfolding mathMax_def
proof (induction xs rule: rev_induct)
  case Nil
  then show ?case by simp
next
  case (snoc x xs)
  show ?case
  proof (cases "isNaN x")
    case True
    then have "x = NaN" by (simp add: isNaN_iff)
    then show ?thesis by (simp add: max2_NaN)
  next
    case False
    then have "\<exists>y \<in> set xs. isNaN y" using snoc.prems by auto
    then have "foldl max2 NegInf xs = NaN" by (rule snoc.IH)
    then show ?thesis by (simp add: max2_NaN)
  qed
qed

lemma strictEq_NaN: "\<not> strictEq x NaN"
  by (cases x) (simp_all add: strictEq_def)

lemma indexOfFrom_NaN: "indexOfFrom k xs NaN = - 1"
  by (induction xs arbitrary: k) (simp_all add: strictEq_NaN)

lemma colorForMaxTime_NaN:
  assumes "truthy (waitMsAvg node)"
    and "isNaN (Number rt (waitMsAvg node)) \<or> isNaN (Number rt (readMsAvg node)) \<or>
         isNaN (Number rt (computeMsAvg node))"
  shows "colorForMaxTime rt node = None"
proof -
  have "\<exists>x \<in> set (timeList rt node). isNaN x"
    using assms(2) by (auto simp add: timeList_def)
  then have "mathMax (timeList rt node) = NaN"
    by (rule mathMax_NaN)
  then show ?thesis
    using assms(1) by (simp add: colorForMaxTime_def indexOf_def indexOfFrom_NaN arrayGet_def)
qed

text \<open>
  Claim C9, as stated, fails. A stage with the average wait \<^verbatim>\<open>5\<close> and no average read or
  compute time has a nonzero average wait, but \<^verbatim>\<open>Number(undefined)\<close> is \<open>NaN\<close>, so
  \<^verbatim>\<open>Math.max\<close> of the list is \<open>NaN\<close>, \<^verbatim>\<open>indexOf\<close> finds it at no index and returns \<open>-1\<close>, and
  the read of the palette at \<open>-1\<close> gives \<^verbatim>\<open>undefined\<close>: no entry of the palette.
\<close>

theorem C9_counterexample:
  "truthy (waitMsAvg waitOnlyStage) \<and>
   Number hostRuntime (waitMsAvg waitOnlyStage) = Fin 5 \<and>
   colorForMaxTime hostRuntime waitOnlyStage = None"
proof -
  have t: "truthy (waitMsAvg waitOnlyStage)"
    by (simp add: truthy_def waitOnlyStage_def)
  have n: "Number hostRuntime (waitMsAvg waitOnlyStage) = Fin 5"
    by (simp add: waitOnlyStage_def Number_def hostRuntime_def decimalToNumber_def)
  have "isNaN (Number hostRuntime (readMsAvg waitOnlyStage))"
    by (simp add: waitOnlyStage_def Number_def)
  then have "colorForMaxTime hostRuntime waitOnlyStage = None"
    using t by (intro colorForMaxTime_NaN) simp_all
  then show ?thesis
    using t n by (intro conjI)
qed

text \<open>
  Claim C9, amended. The list of times is wait, read, compute, wait (the write average is
  not in it). For a stage with a truthy average wait (present and not empty, which every
  nonzero value is) whose average wait, read and compute times all convert to numbers,
  \<^verbatim>\<open>Math.max\<close> of the list is an element of the list and an upper bound of it, and the
  colour is the palette entry at the first index whose time strictly equals it, one of
  the first three. When one of the three conversions is \<open>NaN\<close>, as for a missing
  average, the result is \<^verbatim>\<open>undefined\<close> and no colour. Without wait data the colour is
  \<^verbatim>\<open>#2290FF\<close>.
\<close>

theorem C9_color_for_max_time:
  "timeList rt node =
     [Number rt (waitMsAvg node), Number rt (readMsAvg node),
      Number rt (computeMsAvg node), Number rt (waitMsAvg node)] \<and>
   (truthy (waitMsAvg node) \<longrightarrow>
      (\<forall>i < 4. strictEq (timeList rt node ! i) (mathMax (timeList rt node)) \<longrightarrow>
         (\<forall>j < i. \<not> strictEq (timeList rt node ! j) (mathMax (timeList rt node))) \<longrightarrow>
         colorForMaxTime rt node = Some (palette ! i)) \<and>
      (\<not> isNaN (Number rt (waitMsAvg node)) \<longrightarrow> \<not> isNaN (Number rt (readMsAvg node)) \<longrightarrow>
       \<not> isNaN (Number rt (computeMsAvg node)) \<longrightarrow>
         mathMax (timeList rt node) \<in> set (timeList rt node) \<and>
         (\<forall>x \<in> set (timeList rt node). jsLe x (mathMax (timeList rt node))) \<and>
         (\<exists>i < 3. strictEq (timeList rt node ! i) (mathMax (timeList rt node)) \<and>
            (\<forall>j < i. \<not> strictEq (timeList rt node ! j) (mathMax (timeList rt node))) \<and>
            colorForMaxTime rt node = Some (palette ! i))) \<and>
      (isNaN (Number rt (waitMsAvg node)) \<or> isNaN (Number rt (readMsAvg node)) \<or>
       isNaN (Number rt (computeMsAvg node)) \<longrightarrow> colorForMaxTime rt node = None)) \<and>
   (\<not> truthy (waitMsAvg node) \<longrightarrow> colorForMaxTime rt node = Some ''#2290FF'') \<and>
   palette = [''#fbc02d'', ''#7b1fa2'', ''#ef6c00'', ''#1565c0'']"
proof (intro conjI impI allI)
  show "timeList rt node =
     [Number rt (waitMsAvg node), Number rt (readMsAvg node),
      Number rt (computeMsAvg node), Number rt (waitMsAvg node)]"
    by (simp add: timeList_def)
  show "palette = [''#fbc02d'', ''#7b1fa2'', ''#ef6c00'', ''#1565c0'']"
    by (simp add: palette_def)
next
  assume "\<not> truthy (waitMsAvg node)"
  then show "colorForMaxTime rt node = Some ''#2290FF''"
    by (simp add: colorForMaxTime_def)
next
  fix i
  assume "truthy (waitMsAvg node)" "i < 4"
    "strictEq (timeList rt node ! i) (mathMax (timeList rt node))"
    "\<forall>j < i. \<not> strictEq (timeList rt node ! j) (mathMax (timeList rt node))"
  then show "colorForMaxTime rt node = Some (palette ! i)"
    by (rule colorForMaxTime_first)
next
  assume t: "truthy (waitMsAvg node)"
    and n: "\<not> isNaN (Number rt (waitMsAvg node))" "\<not> isNaN (Number rt (readMsAvg node))"
      "\<not> isNaN (Number rt (computeMsAvg node))"
  let ?l = "timeList rt node"
  have l: "?l = Number rt (waitMsAvg node) #
      [Number rt (readMsAvg node), Number rt (computeMsAvg node), Number rt (waitMsAvg node)]"
    by (simp add: timeList_def)
  have rest: "\<forall>y \<in> set [Number rt (readMsAvg node), Number rt (computeMsAvg node),
      Number rt (waitMsAvg node)]. \<not> isNaN y"
    using n by simp
  have m: "mathMax ?l \<in> set ?l" "\<not> isNaN (mathMax ?l)" "\<forall>y \<in> set ?l. jsLe y (mathMax ?l)"
    using mathMax_Cons [OF n(1) rest] unfolding l [symmetric] by simp_all
  show "mathMax ?l \<in> set ?l" by (rule m(1))
  show "\<forall>x \<in> set ?l. jsLe x (mathMax ?l)" by (rule m(3))
  have "\<exists>x \<in> set ?l. strictEq x (mathMax ?l)"
    using m(1,2) by (auto simp add: strictEq_def)
  then obtain i where i: "i < length ?l" "strictEq (?l ! i) (mathMax ?l)"
    "\<forall>j < i. \<not> strictEq (?l ! j) (mathMax ?l)"
    using first_index_exists by blast
  have i4: "i < 4" using i(1) by (simp add: timeList_def)
  have "i \<noteq> 3"
  proof
    assume i3: "i = 3"
    have "?l ! 3 = ?l ! 0"
      by (simp add: timeList_def)
    then have "strictEq (?l ! 0) (mathMax ?l)"
      using i(2) i3 by simp
    moreover have "\<not> strictEq (?l ! 0) (mathMax ?l)"
      using i(3) i3 by simp
    ultimately show False by simp
  qed
  then have i3: "i < 3" using i4 by simp
  have "colorForMaxTime rt node = Some (palette ! i)"
    using colorForMaxTime_first [OF t i4 i(2,3)] .
  then show "\<exists>i < 3. strictEq (?l ! i) (mathMax ?l) \<and>
            (\<forall>j < i. \<not> strictEq (?l ! j) (mathMax ?l)) \<and>
            colorForMaxTime rt node = Some (palette ! i)"
    using i3 i(2,3) by blast
next
  assume "truthy (waitMsAvg node)"
    "isNaN (Number rt (waitMsAvg node)) \<or> isNaN (Number rt (readMsAvg node)) \<or>
     isNaN (Number rt (computeMsAvg node))"
  then show "colorForMaxTime rt node = None"
    by (rule colorForMaxTime_NaN)
qed

theorem C9_color_for_max_time_witness:
  "colorForMaxTime hostRuntime sampleStage = Some ''#7b1fa2'' \<and>
   colorForMaxTime hostRuntime (sampleStage\<lparr>computeMsAvg := None\<rparr>) = None \<and>
   colorForMaxTime hostRuntime (ghostNode ''project.dataset.names'') = Some ''#2290FF''"
proof -
  have u: "truthy (waitMsAvg (sampleStage\<lparr>computeMsAvg := None\<rparr>))"
    "isNaN (Number hostRuntime (computeMsAvg (sampleStage\<lparr>computeMsAvg := None\<rparr>)))"
    by (simp_all add: truthy_def sampleStage_def Number_def)
  have h: "colorForMaxTime hostRuntime (sampleStage\<lparr>computeMsAvg := None\<rparr>) = None"
    using C9_color_for_max_time [of hostRuntime "sampleStage\<lparr>computeMsAvg := None\<rparr>"] u
    by blast
  have l: "timeList hostRuntime sampleStage = [Fin 5, Fin 7, Fin 3, Fin 5]"
    by (simp add: timeList_def sampleStage_def Number_def hostRuntime_def decimalToNumber_def)
  have m: "mathMax [Fin 5, Fin 7, Fin 3, Fin 5] = Fin 7"
    by (simp add: mathMax_def max2_def)
  have t: "truthy (waitMsAvg sampleStage)"
    "\<not> truthy (waitMsAvg (ghostNode ''project.dataset.names''))"
    by (simp_all add: truthy_def sampleStage_def ghostNode_def)
  have f: "strictEq (timeList hostRuntime sampleStage ! 1) (mathMax (timeList hostRuntime sampleStage))"
    "\<forall>j < 1. \<not> strictEq (timeList hostRuntime sampleStage ! j)
        (mathMax (timeList hostRuntime sampleStage))"
    by (simp_all add: l m strictEq_def)
  have one: "(1::nat) < 4" by simp
  have c: "colorForMaxTime hostRuntime sampleStage = Some (palette ! 1)"
    using C9_color_for_max_time [of hostRuntime sampleStage] t(1) f one by blast
  have g: "colorForMaxTime hostRuntime (ghostNode ''project.dataset.names'') = Some ''#2290FF''"
    using C9_color_for_max_time [of hostRuntime "ghostNode ''project.dataset.names''"] t(2)
    by blast
  show ?thesis
    using c h g by (simp add: palette_def)
qed

subsection \<open>What the enrichment leaves alone\<close>

text \<open>
  Claim C10. \<^verbatim>\<open>improveNodeInfo\<close> changes nothing of a stage but its display properties: the
  identifier, name, steps, input stages, timestamps and all other declared fields stay,
  every property under a key that is no display key keeps its value, no property is
  removed, and the only keys added are display keys. In the constructor the enrichment
  maps over the nodes, so a valid plan has the nodes the graph construction left, each
  enriched, in the same number and order, and exactly the edges of the graph construction.
\<close>

theorem C10_enrichment_frame:
  "improveNodeInfo rt stats node = node\<lparr>props := props (improveNodeInfo rt stats node)\<rparr> \<and>
   nodeId (improveNodeInfo rt stats node) = nodeId node \<and>
   nodeName (improveNodeInfo rt stats node) = nodeName node \<and>
   steps (improveNodeInfo rt stats node) = steps node \<and>
   inputStages (improveNodeInfo rt stats node) = inputStages node \<and>
   startMs (improveNodeInfo rt stats node) = startMs node \<and>
   endMs (improveNodeInfo rt stats node) = endMs node \<and>
   (\<forall>k. k \<notin> set displayKeys \<longrightarrow>
      map_of (props (improveNodeInfo rt stats node)) k = map_of (props node) k) \<and>
   fst ` set (props node) \<subseteq> fst ` set (props (improveNodeInfo rt stats node)) \<and>
   fst ` set (props (improveNodeInfo rt stats node)) \<subseteq> fst ` set (props node) \<union> set displayKeys \<and>
   (\<forall>p. newBqQueryPlan rt plan = Inr p \<longrightarrow> isValid p \<longrightarrow>
      (\<exists>st q qp ns. statistics plan = Some st \<and> query st = Some q \<and> queryPlan q = Some qp \<and>
         addGhostNodesAndEdges 0 qp [] = Inr (ns, edges p) \<and>
         nodes p = map (improveNodeInfo rt st) ns \<and> length (nodes p) = length ns))"
proof -
  have fr: "improveNodeInfo rt stats node = node\<lparr>props := props (improveNodeInfo rt stats node)\<rparr>"
    by (rule improveNodeInfo_frame)
  have fields: "nodeId (improveNodeInfo rt stats node) = nodeId node"
    "nodeName (improveNodeInfo rt stats node) = nodeName node"
    "steps (improveNodeInfo rt stats node) = steps node"
    "inputStages (improveNodeInfo rt stats node) = inputStages node"
    "startMs (improveNodeInfo rt stats node) = startMs node"
    "endMs (improveNodeInfo rt stats node) = endMs node"
    by (subst fr, simp)+
  have pl: "\<forall>p. newBqQueryPlan rt plan = Inr p \<longrightarrow> isValid p \<longrightarrow>
      (\<exists>st q qp ns. statistics plan = Some st \<and> query st = Some q \<and> queryPlan q = Some qp \<and>
         addGhostNodesAndEdges 0 qp [] = Inr (ns, edges p) \<and>
         nodes p = map (improveNodeInfo rt st) ns \<and> length (nodes p) = length ns)"
  proof (intro allI impI)
    fix p assume "newBqQueryPlan rt plan = Inr p" "isValid p"
    then obtain st q qp ns where
      "statistics plan = Some st" "query st = Some q" "queryPlan q = Some qp"
      "addGhostNodesAndEdges 0 qp [] = Inr (ns, edges p)"
      "nodes p = map (improveNodeInfo rt st) ns"
      using newBqQueryPlan_valid_cases by blast
    then show "\<exists>st q qp ns. statistics plan = Some st \<and> query st = Some q \<and>
         queryPlan q = Some qp \<and> addGhostNodesAndEdges 0 qp [] = Inr (ns, edges p) \<and>
         nodes p = map (improveNodeInfo rt st) ns \<and> length (nodes p) = length ns"
      by simp
  qed
  have ok: "\<forall>k. k \<notin> set displayKeys \<longrightarrow>
      map_of (props (improveNodeInfo rt stats node)) k = map_of (props node) k"
    by (simp add: improveNodeInfo_other_keys)
  have kk: "fst ` set (props node) \<subseteq> fst ` set (props (improveNodeInfo rt stats node))"
    by (rule improveNodeInfo_keeps_keys)
  have nk: "fst ` set (props (improveNodeInfo rt stats node)) \<subseteq>
      fst ` set (props node) \<union> set displayKeys"
    by (rule improveNodeInfo_new_keys)
  show ?thesis
    by (intro conjI; (rule fr fields ok kk nk pl))
qed




lemma improveNodeInfo_outputStage: "improveNodeInfo rt stats outputStage = outputStage"
  by (rule improveNodeInfo_skip) (simp add: timestampsUsable_def outputStage_def truthy_def)

lemma improveNodeInfo_ghostNode: "improveNodeInfo rt stats (ghostNode s) = ghostNode s"
  by (rule improveNodeInfo_skip) (simp add: timestampsUsable_def ghostNode_def truthy_def)

lemma sampleJob_fields:
  "jobKind sampleJob = Some ''bigquery#job''" "prefix ''bigquery'' ''bigquery#job''"
  "statistics sampleJob = Some sampleJobStats"
  "query sampleJobStats = Some \<lparr>queryPlan = Some [sampleStage, outputStage]\<rparr>"
  "queryPlan \<lparr>queryPlan = Some [sampleStage, outputStage]\<rparr> = Some [sampleStage, outputStage]"
  by (simp_all add: sampleJob_def sampleJobStats_def)

lemma sampleJob_result: "newBqQueryPlan hostRuntime sampleJob = Inr sampleResult"
  unfolding newBqQueryPlan_query [OF sampleJob_fields]
  by (simp add: sample_graph sampleResult_def improveNodeInfo_outputStage improveNodeInfo_ghostNode)

theorem C10_enrichment_frame_witness:
  "nodeId (improveNodeInfo hostRuntime sampleStats sampleStage) = ''0'' \<and>
   startMs (improveNodeInfo hostRuntime sampleStats sampleStage) = Some ''1000'' \<and>
   map_of (props (improveNodeInfo hostRuntime sampleStats
      (sampleStage\<lparr>props := [(''note'', DString ''kept'')]\<rparr>))) ''note'' = Some (DString ''kept'') \<and>
   (\<exists>ns. addGhostNodesAndEdges 0 [sampleStage, outputStage] [] = Inr (ns, edges sampleResult) \<and>
      length (nodes sampleResult) = length ns)"
proof -
  have k: "''note'' \<notin> set displayKeys"
    by (simp add: displayKeys_def)
  have v: "isValid sampleResult"
    by (simp add: sampleResult_def)
  note t = C10_enrichment_frame [of hostRuntime sampleStats sampleStage sampleJob]
  have a1: "nodeId (improveNodeInfo hostRuntime sampleStats sampleStage) = nodeId sampleStage"
    using t by (elim conjE) assumption
  have a2: "startMs (improveNodeInfo hostRuntime sampleStats sampleStage) = startMs sampleStage"
    using t by (elim conjE) assumption
  have b0: "\<forall>k. k \<notin> set displayKeys \<longrightarrow>
      map_of (props (improveNodeInfo hostRuntime sampleStats
        (sampleStage\<lparr>props := [(''note'', DString ''kept'')]\<rparr>))) k =
      map_of (props (sampleStage\<lparr>props := [(''note'', DString ''kept'')]\<rparr>)) k"
    using C10_enrichment_frame [of hostRuntime sampleStats
        "sampleStage\<lparr>props := [(''note'', DString ''kept'')]\<rparr>" sampleJob]
    by (elim conjE) assumption
  have b: "map_of (props (improveNodeInfo hostRuntime sampleStats
      (sampleStage\<lparr>props := [(''note'', DString ''kept'')]\<rparr>))) ''note'' =
      map_of (props (sampleStage\<lparr>props := [(''note'', DString ''kept'')]\<rparr>)) ''note''"
    using b0 [rule_format, OF k] .
  have c0: "\<forall>p. newBqQueryPlan hostRuntime sampleJob = Inr p \<longrightarrow> isValid p \<longrightarrow>
      (\<exists>st q qp ns. statistics sampleJob = Some st \<and> query st = Some q \<and>
         queryPlan q = Some qp \<and> addGhostNodesAndEdges 0 qp [] = Inr (ns, edges p) \<and>
         nodes p = map (improveNodeInfo hostRuntime st) ns \<and> length (nodes p) = length ns)"
    using t by (elim conjE) assumption
  obtain st q qp ns where c: "statistics sampleJob = Some st" "query st = Some q"
    "queryPlan q = Some qp" "addGhostNodesAndEdges 0 qp [] = Inr (ns, edges sampleResult)"
    "length (nodes sampleResult) = length ns"
    using c0 [rule_format, OF sampleJob_result v] by blast
  have "st = sampleJobStats"
    using c(1) sampleJob_fields(3) by simp
  then have "q = \<lparr>queryPlan = Some [sampleStage, outputStage]\<rparr>"
    using c(2) sampleJob_fields(4) by simp
  then have "qp = [sampleStage, outputStage]"
    using c(3) by simp
  then have d: "\<exists>ns. addGhostNodesAndEdges 0 [sampleStage, outputStage] [] =
      Inr (ns, edges sampleResult) \<and> length (nodes sampleResult) = length ns"
    using c(4,5) by blast
  have e: "nodeId sampleStage = ''0''" "startMs sampleStage = Some ''1000''"
    by (simp_all add: sampleStage_def)
  have f: "map_of (props (sampleStage\<lparr>props := [(''note'', DString ''kept'')]\<rparr>)) ''note'' =
      Some (DString ''kept'')"
    by simp
  show ?thesis
    using a1 a2 b d unfolding e f by (intro conjI)
qed

subsection \<open>Node lookup\<close>

lemma findIndexFrom_None_iff: "findIndexFrom k P xs = None \<longleftrightarrow> (\<forall>x \<in> set xs. \<not> P x)"
  by (induction xs arbitrary: k) auto

lemma findIndexFrom_Some:
  "findIndexFrom k P xs = Some m \<Longrightarrow> k \<le> m \<and> m - k < length xs \<and> P (xs ! (m - k))"
proof (induction xs arbitrary: k)
  case Nil
  then show ?case by simp
next
  case (Cons x xs)
  show ?case
  proof (cases "P x")
    case True
    then show ?thesis using Cons.prems by simp
  next
    case False
    then have "findIndexFrom (Suc k) P xs = Some m" using Cons.prems by simp
    then have "Suc k \<le> m \<and> m - Suc k < length xs \<and> P (xs ! (m - Suc k))"
      by (rule Cons.IH)
    then show ?thesis by (auto simp add: Suc_diff_le)
  qed
qed

lemma findIndexFrom_append:
  "findIndexFrom k P xs = Some m \<Longrightarrow> findIndexFrom k P (xs @ ys) = Some m"
  by (induction xs arbitrary: k) (auto split: if_splits)

lemma findIndexFrom_append_None:
  "findIndexFrom k P xs = None \<Longrightarrow>
   findIndexFrom k P (xs @ ys) = findIndexFrom (k + length xs) P ys"
  by (induction xs arbitrary: k) (auto split: if_splits)

lemma findIndexFrom_map: "findIndexFrom k P (map f xs) = findIndexFrom k (\<lambda>x. P (f x)) xs"
  by (induction xs arbitrary: k) auto

lemma getNode_None_iff: "getNode ns r = None \<longleftrightarrow> r \<notin> set (map nodeId ns)"
  by (auto simp add: getNode_def findIndexFrom_None_iff)

lemma getNode_Some: "getNode ns r = Some k \<Longrightarrow> k < length ns \<and> nodeId (ns ! k) = r"
  using findIndexFrom_Some [of 0 "\<lambda>x. nodeId x = r" ns k] by (simp add: getNode_def)

lemma getNode_append: "getNode ns r = Some k \<Longrightarrow> getNode (ns @ xs) r = Some k"
  by (simp add: getNode_def findIndexFrom_append)

lemma getNode_new_ghost:
  "getNode ns r = None \<Longrightarrow> getNode (ns @ [ghostNode r]) r = Some (length ns)"
  by (simp add: getNode_def findIndexFrom_append_None ghostNode_def)


subsection \<open>The identifiers of the ghost nodes\<close>

lemma set_newIds: "set (newIds known rs) = set rs - set known"
  by (induction rs arbitrary: known) auto


lemma newIds_append:
  "newIds known (rs @ rs') = newIds known rs @ newIds (known @ newIds known rs) rs'"
  by (induction rs arbitrary: known) auto

subsection \<open>The inner loop\<close>

lemma readsOf_ghostNode: "readsOf (ghostNode s) = []"
  by (simp add: readsOf_def getReads_def ghostNode_def)

lemma forReads_nodes:
  "fst (forReads i nm rs st) = fst st @ map ghostNode (newIds (map nodeId (fst st)) rs)"
proof (induction rs arbitrary: st)
  case Nil
  show ?case by (simp add: forReads_Nil)
next
  case (Cons r rs)
  have ih: "fst (forReads i nm rs (addRead i nm st r)) =
      fst (addRead i nm st r) @
      map ghostNode (newIds (map nodeId (fst (addRead i nm st r))) rs)"
    by (rule Cons.IH)
  show ?case
  proof (cases "getNode (fst st) r = None")
    case True
    then have n: "r \<notin> set (map nodeId (fst st))"
      by (simp add: getNode_None_iff)
    have a: "fst (addRead i nm st r) = fst st @ [ghostNode r]"
      using True by (simp add: fst_addRead)
    have b: "map nodeId (fst st @ [ghostNode r]) = map nodeId (fst st) @ [r]"
      by (simp add: ghostNode_def)
    show ?thesis
      using n ih unfolding a b by (simp add: forReads_Cons a)
  next
    case False
    then have n: "r \<in> set (map nodeId (fst st))"
      by (simp add: getNode_None_iff)
    have a: "fst (addRead i nm st r) = fst st"
      using False by (simp add: fst_addRead)
    show ?thesis
      using n ih unfolding a by (simp add: forReads_Cons)
  qed
qed

lemma addRead_edge:
  assumes "fst (addRead i nm st r) @ xs = final"
  shows "snd (addRead i nm st r) =
           snd st @ [\<lparr>fromNode = getNode final r, toNode = i, outputName = nm\<rparr>]"
proof -
  obtain k where k: "getNode (fst (addRead i nm st r)) r = Some k"
  proof (cases "getNode (fst st) r")
    case None
    then have "getNode (fst (addRead i nm st r)) r = Some (length (fst st))"
      by (simp add: fst_addRead getNode_new_ghost)
    then show ?thesis using that by blast
  next
    case (Some m)
    then have "getNode (fst (addRead i nm st r)) r = Some m"
      by (simp add: fst_addRead)
    then show ?thesis using that by blast
  qed
  then have "getNode final r = Some k"
    using assms getNode_append by blast
  moreover have "snd (addRead i nm st r) =
      snd st @ [\<lparr>fromNode = getNode (fst (addRead i nm st r)) r, toNode = i, outputName = nm\<rparr>]"
    by (simp add: addRead_def Let_def)
  ultimately show ?thesis using k by simp
qed

lemma forReads_edges:
  "fst (forReads i nm rs st) @ xs = final \<Longrightarrow>
   snd (forReads i nm rs st) =
     snd st @ map (\<lambda>r. \<lparr>fromNode = getNode final r, toNode = i, outputName = nm\<rparr>) rs"
proof (induction rs arbitrary: st)
  case Nil
  show ?case by (simp add: forReads_Nil)
next
  case (Cons r rs)
  let ?st = "addRead i nm st r"
  have f: "fst (forReads i nm rs ?st) @ xs = final"
    using Cons.prems by (simp add: forReads_Cons)
  obtain gs where gs: "fst (forReads i nm rs ?st) = fst ?st @ gs"
    using forReads_nodes_append [of i nm rs ?st] by blast
  have "fst ?st @ (gs @ xs) = final"
    using f gs by simp
  then have e: "snd ?st = snd st @ [\<lparr>fromNode = getNode final r, toNode = i, outputName = nm\<rparr>]"
    by (rule addRead_edge)
  show ?case
    using Cons.IH [OF f] e by (simp add: forReads_Cons)
qed


subsection \<open>The outer loop\<close>


lemma loop_nodes:
  "addGhostNodesAndEdges i ns es = Inr (ns', es') \<Longrightarrow>
   ns' = ns @ map ghostNode (newIds (map nodeId ns) (concat (map readsOf (drop i ns))))"
proof (induction i ns es rule: addGhostNodesAndEdges.induct)
  case (1 i ns es)
  show ?case
  proof (cases "i < length ns")
    case False
    then show ?thesis
      using "1.prems" by (simp add: addGhostNodesAndEdges.simps)
  next
    case True
    obtain reads where r: "getReads (ns ! i) = Inr reads"
      using "1.prems" True by (cases "getReads (ns ! i)") (simp_all add: addGhostNodesAndEdges.simps)
    let ?st = "forReads i (nodeName (ns ! i)) reads (ns, es)"
    let ?g = "newIds (map nodeId ns) reads"
    have rec: "addGhostNodesAndEdges (Suc i) (fst ?st) (snd ?st) = Inr (ns', es')"
      using "1.prems" True r by (simp add: addGhostNodesAndEdges.simps)
    have n1: "fst ?st = ns @ map ghostNode ?g"
      using forReads_nodes [of i "nodeName (ns ! i)" reads "(ns, es)"] by simp
    have ids: "map nodeId (fst ?st) = map nodeId ns @ ?g"
      by (simp add: n1 ghostNode_def comp_def)
    have d: "drop (Suc i) (fst ?st) = drop (Suc i) ns @ map ghostNode ?g"
      using True by (simp add: n1)
    have c: "concat (map readsOf (drop (Suc i) (fst ?st))) = concat (map readsOf (drop (Suc i) ns))"
      by (simp add: d readsOf_ghostNode)
    have ih: "ns' = fst ?st @ map ghostNode
        (newIds (map nodeId (fst ?st)) (concat (map readsOf (drop (Suc i) (fst ?st)))))"
      using "1.IH" [OF True r rec] .
    have here: "readsOf (ns ! i) = reads"
      by (simp add: readsOf_def r)
    have dr: "drop i ns = ns ! i # drop (Suc i) ns"
      using True by (simp add: Cons_nth_drop_Suc)
    have ih2: "ns' = fst ?st @ map ghostNode
        (newIds (map nodeId ns @ ?g) (concat (map readsOf (drop (Suc i) ns))))"
      using ih by (simp only: c ids)
    have "newIds (map nodeId ns) (concat (map readsOf (drop i ns))) =
        ?g @ newIds (map nodeId ns @ ?g) (concat (map readsOf (drop (Suc i) ns)))"
      by (simp add: dr here newIds_append)
    then show ?thesis
      using ih2 by (simp add: n1)
  qed
qed

lemma loop_edges:
  "addGhostNodesAndEdges i ns es = Inr (ns', es') \<Longrightarrow>
   es' = es @ concat (map (\<lambda>j. map (edgeFor ns' j) (readsOf (ns' ! j))) [i..<length ns'])"
proof (induction i ns es rule: addGhostNodesAndEdges.induct)
  case (1 i ns es)
  have ext: "\<exists>xs. ns' = ns @ xs"
    using loop_nodes [OF "1.prems"] by blast
  show ?case
  proof (cases "i < length ns")
    case False
    then show ?thesis
      using "1.prems" by (simp add: addGhostNodesAndEdges.simps)
  next
    case True
    obtain reads where r: "getReads (ns ! i) = Inr reads"
      using "1.prems" True by (cases "getReads (ns ! i)") (simp_all add: addGhostNodesAndEdges.simps)
    let ?st = "forReads i (nodeName (ns ! i)) reads (ns, es)"
    have rec: "addGhostNodesAndEdges (Suc i) (fst ?st) (snd ?st) = Inr (ns', es')"
      using "1.prems" True r by (simp add: addGhostNodesAndEdges.simps)
    obtain xs where xs: "fst ?st @ xs = ns'"
      using loop_nodes [OF rec] by simp
    have e1: "snd ?st = es @ map (\<lambda>r. \<lparr>fromNode = getNode ns' r, toNode = i,
        outputName = nodeName (ns ! i)\<rparr>) reads"
      using forReads_edges [OF xs] by simp
    have same: "ns' ! i = ns ! i"
      using ext True by (auto simp add: nth_append)
    have here: "readsOf (ns' ! i) = reads"
      by (simp add: same readsOf_def r)
    have e2: "snd ?st = es @ map (edgeFor ns' i) (readsOf (ns' ! i))"
      unfolding here e1 by (simp add: edgeFor_def [abs_def] same)
    have len: "i < length ns'"
      using ext True by auto
    have up: "[i..<length ns'] = i # [Suc i..<length ns']"
      using len by (simp add: upt_conv_Cons)
    have ih: "es' = snd ?st @
        concat (map (\<lambda>j. map (edgeFor ns' j) (readsOf (ns' ! j))) [Suc i..<length ns'])"
      using "1.IH" [OF True r rec] .
    show ?thesis
      unfolding up ih e2 by simp
  qed
qed


lemma loop_reads_succeed:
  "addGhostNodesAndEdges i ns es = Inr (ns', es') \<Longrightarrow>
   \<forall>n \<in> set (drop i ns). getReads n = Inr (readsOf n)"
proof (induction i ns es rule: addGhostNodesAndEdges.induct)
  case (1 i ns es)
  show ?case
  proof (cases "i < length ns")
    case False
    then show ?thesis by simp
  next
    case True
    obtain reads where r: "getReads (ns ! i) = Inr reads"
      using "1.prems" True by (cases "getReads (ns ! i)") (simp_all add: addGhostNodesAndEdges.simps)
    let ?st = "forReads i (nodeName (ns ! i)) reads (ns, es)"
    have rec: "addGhostNodesAndEdges (Suc i) (fst ?st) (snd ?st) = Inr (ns', es')"
      using "1.prems" True r by (simp add: addGhostNodesAndEdges.simps)
    obtain gs where gs: "fst ?st = ns @ gs"
      using forReads_nodes_append [of i "nodeName (ns ! i)" reads "(ns, es)"] by auto
    have ih: "\<forall>n \<in> set (drop (Suc i) (fst ?st)). getReads n = Inr (readsOf n)"
      using "1.IH" [OF True r rec] .
    have "set (drop (Suc i) ns) \<subseteq> set (drop (Suc i) (fst ?st))"
      using True by (simp add: gs)
    then have rest: "\<forall>n \<in> set (drop (Suc i) ns). getReads n = Inr (readsOf n)"
      using ih by blast
    have here: "getReads (ns ! i) = Inr (readsOf (ns ! i))"
      by (simp add: readsOf_def r)
    have dr: "drop i ns = ns ! i # drop (Suc i) ns"
      using True by (simp add: Cons_nth_drop_Suc)
    show ?thesis
      unfolding dr using here rest by simp
  qed
qed

subsection \<open>The graph of a valid plan\<close>

lemma getReads_improveNodeInfo: "getReads (improveNodeInfo rt st n) = getReads n"
proof -
  have a: "steps (improveNodeInfo rt st n) = steps n"
    by (subst improveNodeInfo_frame) simp
  have b: "inputStages (improveNodeInfo rt st n) = inputStages n"
    by (subst improveNodeInfo_frame) simp
  show ?thesis
    unfolding getReads_def a b by (rule refl)
qed

lemma readsOf_improveNodeInfo: "readsOf (improveNodeInfo rt st n) = readsOf n"
  by (simp add: readsOf_def getReads_improveNodeInfo)

lemma nodeId_improveNodeInfo: "nodeId (improveNodeInfo rt st n) = nodeId n"
  by (subst improveNodeInfo_frame) simp

lemma nodeName_improveNodeInfo: "nodeName (improveNodeInfo rt st n) = nodeName n"
  by (subst improveNodeInfo_frame) simp

lemma getNode_improveNodeInfo: "getNode (map (improveNodeInfo rt st) ns) r = getNode ns r"
  by (simp add: getNode_def findIndexFrom_map nodeId_improveNodeInfo)

lemma edgeFor_improveNodeInfo:
  "j < length ns \<Longrightarrow> edgeFor (map (improveNodeInfo rt st) ns) j = edgeFor ns j"
  by (rule ext) (simp add: edgeFor_def getNode_improveNodeInfo nodeName_improveNodeInfo)

lemma valid_plan_structure:
  assumes "newBqQueryPlan rt plan = Inr p" and "isValid p"
  shows "\<exists>st q qp.
     statistics plan = Some st \<and> query st = Some q \<and> queryPlan q = Some qp \<and>
     (\<forall>stage \<in> set qp. getReads stage = Inr (readsOf stage)) \<and>
     nodes p = map (improveNodeInfo rt st) qp @
               map ghostNode (newIds (map nodeId qp) (concat (map readsOf qp))) \<and>
     edges p = concat (map (\<lambda>j. map (edgeFor (nodes p) j) (readsOf (nodes p ! j)))
                           [0..<length (nodes p)])"
proof -
  obtain k st q qp ns where c: "jobKind plan = Some k" "statistics plan = Some st"
    "query st = Some q" "queryPlan q = Some qp"
    "addGhostNodesAndEdges 0 qp [] = Inr (ns, edges p)"
    "nodes p = map (improveNodeInfo rt st) ns"
    using newBqQueryPlan_valid_cases [OF assms] by blast
  let ?g = "newIds (map nodeId qp) (concat (map readsOf qp))"
  have ns: "ns = qp @ map ghostNode ?g"
    using loop_nodes [OF c(5)] by simp
  have rd: "\<forall>stage \<in> set qp. getReads stage = Inr (readsOf stage)"
    using loop_reads_succeed [OF c(5)] by simp
  have gh: "map (improveNodeInfo rt st) (map ghostNode ?g) = map ghostNode ?g"
    by (simp add: improveNodeInfo_ghostNode)
  have np: "nodes p = map (improveNodeInfo rt st) qp @ map ghostNode ?g"
    using c(6) gh unfolding ns by simp
  have es: "edges p = concat (map (\<lambda>j. map (edgeFor ns j) (readsOf (ns ! j))) [0..<length ns])"
    using loop_edges [OF c(5)] by simp
  have eq: "map (\<lambda>j. map (edgeFor ns j) (readsOf (ns ! j))) [0..<length ns] =
        map (\<lambda>j. map (edgeFor (nodes p) j) (readsOf (nodes p ! j))) [0..<length ns]"
    by (rule map_cong) (simp_all add: c(6) readsOf_improveNodeInfo edgeFor_improveNodeInfo)
  have len: "length (nodes p) = length ns"
    by (simp add: c(6))
  have "edges p = concat (map (\<lambda>j. map (edgeFor (nodes p) j) (readsOf (nodes p ! j)))
      [0..<length (nodes p)])"
    by (simp only: es eq len)
  then show ?thesis
    using c(2-4) rd np by blast
qed

subsection \<open>When the constructor returns\<close>

lemma split_nonempty: "split c s \<noteq> []"
  by (induction s) (auto split: list.splits)

lemma split_other: "x \<noteq> c \<Longrightarrow> split c (x # xs) = (x # hd (split c xs)) # tl (split c xs)"
  using split_nonempty [of c xs] by (cases "split c xs") simp_all

lemma split_FROM:
  assumes "prefix ''FROM '' s"
  shows "\<exists>item rest. split CHR '' '' s = ''FROM'' # item # rest"
proof -
  obtain t where t: "s = ''FROM '' @ t"
    using assms by (auto simp add: prefix_def)
  obtain item rest where r: "split CHR '' '' t = item # rest"
    using split_nonempty [of "CHR '' ''" t] by (cases "split CHR '' '' t") auto
  have "split CHR '' '' s = ''FROM'' # item # rest"
    unfolding t by (simp add: split_other r)
  then show ?thesis by blast
qed

lemma readItem_total:
  assumes "list_ex (\<lambda>substep. prefix ''FROM '' substep) (substeps step)"
  shows "\<exists>item. readItem step = Inr item"
proof -
  obtain s where s: "find (\<lambda>substep. prefix ''FROM '' substep) (substeps step) = Some s"
    using assms by (cases "find (\<lambda>substep. prefix ''FROM '' substep) (substeps step)")
      (auto simp add: find_None_iff list_ex_iff)
  then have "prefix ''FROM '' s"
    by (auto simp add: find_Some_iff)
  then obtain item rest where "split CHR '' '' s = ''FROM'' # item # rest"
    using split_FROM by blast
  then show ?thesis
    by (simp add: readItem_def s)
qed

lemma mapE_total:
  "\<forall>x \<in> set xs. \<exists>y. f x = Inr y \<Longrightarrow> \<exists>ys. mapE f xs = Inr ys"
proof (induction xs)
  case Nil
  show ?case by simp
next
  case (Cons x xs)
  obtain y where y: "f x = Inr y" using Cons.prems by auto
  obtain ys where ys: "mapE f xs = Inr ys" using Cons by auto
  show ?case by (simp add: y ys)
qed

lemma getReads_total:
  assumes "readStepsHaveFrom n"
  shows "\<exists>rs. getReads n = Inr rs"
proof (cases "steps n")
  case None
  then show ?thesis by (simp add: getReads_def)
next
  case (Some sts)
  have "\<forall>step \<in> set (filter (\<lambda>step. stepKind step = ''READ'') sts). \<exists>item. readItem step = Inr item"
    using assms Some by (auto simp add: readStepsHaveFrom_def list_all_iff intro: readItem_total)
  then obtain items where "mapE readItem (filter (\<lambda>step. stepKind step = ''READ'') sts) = Inr items"
    using mapE_total by blast
  then show ?thesis
    by (simp add: getReads_def Some)
qed

lemma loop_total:
  "\<forall>n \<in> set (drop i ns). readStepsHaveFrom n \<Longrightarrow> \<exists>r. addGhostNodesAndEdges i ns es = Inr r"
proof (induction i ns es rule: addGhostNodesAndEdges.induct)
  case (1 i ns es)
  show ?case
  proof (cases "i < length ns")
    case False
    then show ?thesis by (simp add: addGhostNodesAndEdges.simps)
  next
    case True
    have dr: "drop i ns = ns ! i # drop (Suc i) ns"
      using True by (simp add: Cons_nth_drop_Suc)
    have "readStepsHaveFrom (ns ! i)"
      using "1.prems" dr by simp
    then obtain reads where r: "getReads (ns ! i) = Inr reads"
      using getReads_total by blast
    let ?st = "forReads i (nodeName (ns ! i)) reads (ns, es)"
    obtain gs where gs: "fst ?st = ns @ gs" "\<forall>g \<in> set gs. steps g = None"
      using forReads_nodes_append [of i "nodeName (ns ! i)" reads "(ns, es)"] by auto
    have "drop (Suc i) (fst ?st) = drop (Suc i) ns @ gs"
      using True by (simp add: gs(1))
    moreover have "\<forall>g \<in> set gs. readStepsHaveFrom g"
      using gs(2) by (simp add: readStepsHaveFrom_def)
    moreover have "\<forall>n \<in> set (drop (Suc i) ns). readStepsHaveFrom n"
      using "1.prems" dr by simp
    ultimately have "\<forall>n \<in> set (drop (Suc i) (fst ?st)). readStepsHaveFrom n"
      by auto
    then obtain res where "addGhostNodesAndEdges (Suc i) (fst ?st) (snd ?st) = Inr res"
      using "1.IH" [OF True r] by blast
    then show ?thesis
      using True r by (simp add: addGhostNodesAndEdges.simps)
  qed
qed

text \<open>
  Claim C4, as stated, fails: nothing in the constructor catches an exception. A READ
  step none of whose substeps starts with \<^verbatim>\<open>FROM\<close> and a blank makes \<^verbatim>\<open>getReads\<close> call
  \<^verbatim>\<open>split\<close> on \<^verbatim>\<open>undefined\<close>, and a document of kind bigquery without a statistics block
  makes the constructor read a property of \<^verbatim>\<open>undefined\<close>; both throw a \<^verbatim>\<open>TypeError\<close>.
\<close>

theorem C4_counterexample:
  "newBqQueryPlan hostRuntime noFromJob = Inl TypeError \<and>
   newBqQueryPlan hostRuntime noStatisticsJob = Inl TypeError"
proof -
  have "getReads noFromStage = Inl TypeError"
    by (simp add: getReads_def noFromStage_def readItem_def)
  then have "addGhostNodesAndEdges 0 [noFromStage] [] = Inl TypeError"
    by (simp add: addGhostNodesAndEdges.simps)
  then have "newBqQueryPlan hostRuntime noFromJob = Inl TypeError"
    by (simp add: newBqQueryPlan_def noFromJob_def)
  moreover have "newBqQueryPlan hostRuntime noStatisticsJob = Inl TypeError"
    by (simp add: newBqQueryPlan_def noStatisticsJob_def)
  ultimately show ?thesis by simp
qed

text \<open>
  Claim C4, amended. The constructor returns a plan, and throws nothing, for every job
  document that either fails the validation of its kind or has a statistics block and, in
  every stage of its query plan (if any), under every READ step a substep that starts with
  \<^verbatim>\<open>FROM\<close> and a blank. The plan returned is valid exactly when the three validations
  pass.
\<close>

theorem C4_returns_when_well_formed:
  assumes "\<forall>k. jobKind plan = Some k \<longrightarrow> prefix ''bigquery'' k \<longrightarrow>
             (\<exists>st. statistics plan = Some st \<and>
                   (\<forall>q qp. query st = Some q \<longrightarrow> queryPlan q = Some qp \<longrightarrow>
                            list_all readStepsHaveFrom qp))"
  shows "\<exists>p. newBqQueryPlan rt plan = Inr p \<and>
             (isValid p \<longleftrightarrow>
                (\<exists>k st q qp. jobKind plan = Some k \<and> prefix ''bigquery'' k \<and>
                   statistics plan = Some st \<and> query st = Some q \<and> queryPlan q = Some qp))"
proof (cases "jobKind plan")
  case None
  then show ?thesis
    by (simp add: newBqQueryPlan_no_kind)
next
  case (Some k)
  show ?thesis
  proof (cases "prefix ''bigquery'' k")
    case False
    then show ?thesis
      using Some by (simp add: newBqQueryPlan_other_kind)
  next
    case True
    obtain st where st: "statistics plan = Some st"
      and wf: "\<forall>q qp. query st = Some q \<longrightarrow> queryPlan q = Some qp \<longrightarrow> list_all readStepsHaveFrom qp"
      using assms Some True by blast
    show ?thesis
    proof (cases "query st = None \<or> (\<exists>q. query st = Some q \<and> queryPlan q = None)")
      case noq: True
      have "newBqQueryPlan rt plan =
          Inr \<lparr>nodes = [], edges = [], isValid = False,
               warnings = [''No query found in job '' @ template (jobId plan)]\<rparr>"
        using Some True st noq by (rule newBqQueryPlan_no_query)
      then show ?thesis
        using Some st noq by auto
    next
      case False
      then obtain q qp where q: "query st = Some q" "queryPlan q = Some qp"
        by auto
      have "\<forall>n \<in> set (drop 0 qp). readStepsHaveFrom n"
        using wf q by (simp add: list_all_iff)
      then obtain res where "addGhostNodesAndEdges 0 qp [] = Inr res"
        using loop_total by blast
      then have "\<exists>p. newBqQueryPlan rt plan = Inr p \<and> isValid p"
        unfolding newBqQueryPlan_query [OF Some True st q] by (cases res) simp
      then show ?thesis
        using Some True st q by auto
    qed
  qed
qed

theorem C4_returns_when_well_formed_witness:
  "\<exists>p. newBqQueryPlan hostRuntime sampleJob = Inr p \<and> isValid p"
proof -
  have wf: "list_all readStepsHaveFrom [sampleStage, outputStage]"
    by (simp add: readStepsHaveFrom_def sampleStage_def outputStage_def)
  have h: "\<forall>k. jobKind sampleJob = Some k \<longrightarrow> prefix ''bigquery'' k \<longrightarrow>
             (\<exists>st. statistics sampleJob = Some st \<and>
                   (\<forall>q qp. query st = Some q \<longrightarrow> queryPlan q = Some qp \<longrightarrow>
                            list_all readStepsHaveFrom qp))"
    using wf by (simp add: sampleJob_def sampleJobStats_def)
  obtain p where p: "newBqQueryPlan hostRuntime sampleJob = Inr p"
    "isValid p \<longleftrightarrow>
       (\<exists>k st q qp. jobKind sampleJob = Some k \<and> prefix ''bigquery'' k \<and>
          statistics sampleJob = Some st \<and> query st = Some q \<and> queryPlan q = Some qp)"
    using C4_returns_when_well_formed [OF h, of hostRuntime] by blast
  have "\<exists>k st q qp. jobKind sampleJob = Some k \<and> prefix ''bigquery'' k \<and>
          statistics sampleJob = Some st \<and> query st = Some q \<and> queryPlan q = Some qp"
    using sampleJob_fields by blast
  then have "isValid p" using p(2) by simp
  then show ?thesis using p(1) by blast
qed

subsection \<open>Reads and the double underscore\<close>

lemma valid_plan_graph:
  assumes "newBqQueryPlan rt plan = Inr p" and "isValid p"
    and "statistics plan = Some st" and "query st = Some q" and "queryPlan q = Some qp"
  shows "\<forall>stage \<in> set qp. getReads stage = Inr (readsOf stage)"
    and "nodes p = map (improveNodeInfo rt st) qp @
                   map ghostNode (newIds (map nodeId qp) (concat (map readsOf qp)))"
    and "edges p = concat (map (\<lambda>j. map (edgeFor (nodes p) j) (readsOf (nodes p ! j)))
                               [0..<length (nodes p)])"
proof -
  obtain st' q' qp' where c: "statistics plan = Some st'" "query st' = Some q'"
    "queryPlan q' = Some qp'"
    "\<forall>stage \<in> set qp'. getReads stage = Inr (readsOf stage)"
    "nodes p = map (improveNodeInfo rt st') qp' @
               map ghostNode (newIds (map nodeId qp') (concat (map readsOf qp')))"
    "edges p = concat (map (\<lambda>j. map (edgeFor (nodes p) j) (readsOf (nodes p ! j)))
                           [0..<length (nodes p)])"
    using valid_plan_structure [OF assms(1,2)] by blast
  have "st' = st" using c(1) assms(3) by simp
  moreover from this have "q' = q" using c(2) assms(4) by simp
  moreover from this have "qp' = qp" using c(3) assms(5) by simp
  ultimately show "\<forall>stage \<in> set qp. getReads stage = Inr (readsOf stage)"
    and "nodes p = map (improveNodeInfo rt st) qp @
                   map ghostNode (newIds (map nodeId qp) (concat (map readsOf qp)))"
    using c(4,5) by simp_all
  show "edges p = concat (map (\<lambda>j. map (edgeFor (nodes p) j) (readsOf (nodes p ! j)))
                               [0..<length (nodes p)])"
    by (rule c(6))
qed

lemma readsOf_mem: "r \<in> set (readsOf n) \<Longrightarrow> getReads n = Inr (readsOf n)"
  by (cases "getReads n") (simp_all add: readsOf_def)

lemma edge_of_valid_plan:
  assumes "newBqQueryPlan rt plan = Inr p" and "isValid p" and "e \<in> set (edges p)"
  shows "\<exists>j r. j < length (nodes p) \<and> r \<in> set (readsOf (nodes p ! j)) \<and>
               e = edgeFor (nodes p) j r"
proof -
  have "edges p = concat (map (\<lambda>j. map (edgeFor (nodes p) j) (readsOf (nodes p ! j)))
                               [0..<length (nodes p)])"
    using valid_plan_structure [OF assms(1,2)] by blast
  then have "e \<in> set (concat (map (\<lambda>j. map (edgeFor (nodes p) j) (readsOf (nodes p ! j)))
                               [0..<length (nodes p)]))"
    using assms(3) by simp
  then show ?thesis by auto
qed

lemma truthyItems_set: "r \<in> set (truthyItems items) \<Longrightarrow> Some r \<in> set items"
  by (induction items rule: truthyItems.induct) (auto split: if_splits)

lemma mapE_set: "mapE f xs = Inr ys \<Longrightarrow> y \<in> set ys \<Longrightarrow> \<exists>x \<in> set xs. f x = Inr y"
  by (induction xs arbitrary: ys) (auto split: sum.splits)

lemma readItem_not_underscore: "readItem step = Inr (Some item) \<Longrightarrow> \<not> prefix ''__'' item"
  by (auto simp add: readItem_def split: option.splits list.splits if_splits)

lemma getReads_underscore:
  assumes "getReads stage = Inr rs" and "r \<in> set rs" and "prefix ''__'' r"
  shows "\<exists>ids. inputStages stage = Some ids \<and> r \<in> set ids"
proof (cases "steps stage")
  case None
  then show ?thesis using assms by (simp add: getReads_def)
next
  case (Some sts)
  obtain items where items: "mapE readItem (filter (\<lambda>step. stepKind step = ''READ'') sts) = Inr items"
    and rs: "rs = truthyItems items @ (case inputStages stage of None \<Rightarrow> [] | Some ids \<Rightarrow> ids)"
    using assms(1) Some by (auto simp add: getReads_def split: sum.splits)
  have "r \<notin> set (truthyItems items)"
  proof
    assume "r \<in> set (truthyItems items)"
    then have "Some r \<in> set items" by (rule truthyItems_set)
    then obtain step where "readItem step = Inr (Some r)"
      using mapE_set [OF items] by blast
    then show False
      using readItem_not_underscore assms(3) by blast
  qed
  then have "r \<in> set (case inputStages stage of None \<Rightarrow> [] | Some ids \<Rightarrow> ids)"
    using assms(2) rs by simp
  then show ?thesis
    by (cases "inputStages stage") simp_all
qed

lemma getReads_inputStages:
  assumes "getReads stage = Inr rs" and "steps stage \<noteq> None" and "inputStages stage = Some ids"
  shows "suffix ids rs"
proof -
  obtain sts where "steps stage = Some sts" using assms(2) by auto
  then obtain items where "rs = truthyItems items @ ids"
    using assms(1,3) by (auto simp add: getReads_def split: sum.splits)
  then show ?thesis by (simp add: suffix_def)
qed

lemma getReads_underscoreStage: "getReads underscoreStage = Inr [''__stage00_output'']"
  by (simp add: getReads_def underscoreStage_def)

lemma underscoreJob_fields:
  "jobKind underscoreJob = Some ''bigquery#job''" "prefix ''bigquery'' ''bigquery#job''"
  "statistics underscoreJob = Some underscoreStats"
  "query underscoreStats = Some \<lparr>queryPlan = Some [underscoreStage]\<rparr>"
  "queryPlan \<lparr>queryPlan = Some [underscoreStage]\<rparr> = Some [underscoreStage]"
  by (simp_all add: underscoreJob_def underscoreStats_def)

lemma underscore_graph:
  "addGhostNodesAndEdges 0 [underscoreStage] [] =
     Inr ([underscoreStage, ghostNode ''__stage00_output''],
          [\<lparr>fromNode = Some 1, toNode = 0, outputName = ''S01: Output''\<rparr>])"
proof -
  have ids: "nodeId underscoreStage = ''1''" "nodeName underscoreStage = ''S01: Output''"
    "nodeId (ghostNode ''__stage00_output'') = ''__stage00_output''"
    by (simp_all add: underscoreStage_def ghostNode_def)
  show ?thesis
    apply (subst addGhostNodesAndEdges.simps)
    apply (simp add: getReads_underscoreStage forReads_def addRead_def getNode_def ids)
    apply (subst addGhostNodesAndEdges.simps)
    apply (simp add: getReads_ghostNode forReads_def addRead_def getNode_def ids)
    apply (subst addGhostNodesAndEdges.simps)
    apply simp
    done
qed

lemma improveNodeInfo_underscoreStage: "improveNodeInfo rt stats underscoreStage = underscoreStage"
  by (rule improveNodeInfo_skip) (simp add: timestampsUsable_def underscoreStage_def truthy_def)

lemma underscoreJob_result: "newBqQueryPlan hostRuntime underscoreJob = Inr underscoreResult"
  unfolding newBqQueryPlan_query [OF underscoreJob_fields]
  by (simp add: underscore_graph underscoreResult_def improveNodeInfo_underscoreStage
        improveNodeInfo_ghostNode)

text \<open>
  Claim C3, as stated, fails: the identifiers of \<^verbatim>\<open>inputStages\<close> are pushed onto the reads
  without any test of their prefix. A stage that lists \<^verbatim>\<open>__stage00_output\<close> among its input
  stages, and reads it in no step, receives a ghost node of that name and an edge from it.
\<close>

theorem C3_counterexample:
  "newBqQueryPlan hostRuntime underscoreJob =
     Inr \<lparr>nodes = [underscoreStage, ghostNode ''__stage00_output''],
          edges = [\<lparr>fromNode = Some 1, toNode = 0, outputName = ''S01: Output''\<rparr>],
          isValid = True, warnings = []\<rparr>"
  using underscoreJob_result by (simp add: underscoreResult_def)

text \<open>
  Claim C3, amended. The item a READ step contributes never starts with two underscores,
  so a read that does comes from the input stages of the stage. The input stages of a
  stage that has a steps list are always appended to its reads, whatever their prefix; a
  stage without a steps list has no reads at all, whatever its input stages. In a valid
  plan, a ghost node whose identifier starts with two underscores is listed in the input
  stages of a stage of the document, and an edge whose source has such an identifier ends
  at a stage that lists it in its input stages.
\<close>

theorem C3_double_underscore_only_from_inputStages:
  "(\<forall>item. readItem step = Inr (Some item) \<longrightarrow> \<not> prefix ''__'' item) \<and>
   (\<forall>rs r. getReads stage = Inr rs \<longrightarrow> r \<in> set rs \<longrightarrow> prefix ''__'' r \<longrightarrow>
      (\<exists>ids. inputStages stage = Some ids \<and> r \<in> set ids)) \<and>
   (\<forall>rs ids. getReads stage = Inr rs \<longrightarrow> steps stage \<noteq> None \<longrightarrow>
      inputStages stage = Some ids \<longrightarrow> suffix ids rs) \<and>
   (steps stage = None \<longrightarrow> getReads stage = Inr []) \<and>
   (\<forall>p st q qp. newBqQueryPlan rt plan = Inr p \<longrightarrow> isValid p \<longrightarrow>
      statistics plan = Some st \<longrightarrow> query st = Some q \<longrightarrow> queryPlan q = Some qp \<longrightarrow>
        (\<forall>g \<in> set (drop (length qp) (nodes p)). prefix ''__'' (nodeId g) \<longrightarrow>
           (\<exists>consumer \<in> set qp. \<exists>ids. inputStages consumer = Some ids \<and> nodeId g \<in> set ids)) \<and>
        (\<forall>e \<in> set (edges p). \<forall>k. fromNode e = Some k \<longrightarrow>
           prefix ''__'' (nodeId (nodes p ! k)) \<longrightarrow>
           (\<exists>ids. inputStages (nodes p ! toNode e) = Some ids \<and>
                  nodeId (nodes p ! k) \<in> set ids)))"
proof (intro conjI allI impI ballI)
  fix item assume "readItem step = Inr (Some item)"
  then show "\<not> prefix ''__'' item" by (rule readItem_not_underscore)
next
  fix rs r assume "getReads stage = Inr rs" "r \<in> set rs" "prefix ''__'' r"
  then show "\<exists>ids. inputStages stage = Some ids \<and> r \<in> set ids"
    by (rule getReads_underscore)
next
  fix rs ids
  assume "getReads stage = Inr rs" "steps stage \<noteq> None" "inputStages stage = Some ids"
  then show "suffix ids rs" by (rule getReads_inputStages)
next
  assume "steps stage = None"
  then show "getReads stage = Inr []" by (rule getReads_no_steps)
next
  fix p st q qp g
  assume v: "newBqQueryPlan rt plan = Inr p" "isValid p" "statistics plan = Some st"
    "query st = Some q" "queryPlan q = Some qp"
    and g: "g \<in> set (drop (length qp) (nodes p))" and u: "prefix ''__'' (nodeId g)"
  have "drop (length qp) (nodes p) =
      map ghostNode (newIds (map nodeId qp) (concat (map readsOf qp)))"
    by (simp add: valid_plan_graph(2) [OF v])
  then have "nodeId g \<in> set (newIds (map nodeId qp) (concat (map readsOf qp)))"
    using g by (auto simp add: ghostNode_def)
  then have "nodeId g \<in> set (concat (map readsOf qp))"
    by (simp add: set_newIds)
  then obtain consumer where c: "consumer \<in> set qp" "nodeId g \<in> set (readsOf consumer)"
    by auto
  have "getReads consumer = Inr (readsOf consumer)"
    using valid_plan_graph(1) [OF v] c(1) by blast
  then have "\<exists>ids. inputStages consumer = Some ids \<and> nodeId g \<in> set ids"
    using c(2) u by (rule getReads_underscore)
  then show "\<exists>consumer \<in> set qp. \<exists>ids. inputStages consumer = Some ids \<and> nodeId g \<in> set ids"
    using c(1) by blast
next
  fix p st q qp e k
  assume v: "newBqQueryPlan rt plan = Inr p" "isValid p"
    and e: "e \<in> set (edges p)" and k: "fromNode e = Some k"
    and u: "prefix ''__'' (nodeId (nodes p ! k))"
  obtain j r where j: "j < length (nodes p)" "r \<in> set (readsOf (nodes p ! j))"
    "e = edgeFor (nodes p) j r"
    using edge_of_valid_plan [OF v e] by blast
  have "getNode (nodes p) r = Some k"
    using k j(3) by (simp add: edgeFor_def)
  then have r: "nodeId (nodes p ! k) = r"
    using getNode_Some by blast
  have t: "toNode e = j"
    using j(3) by (simp add: edgeFor_def)
  have "getReads (nodes p ! j) = Inr (readsOf (nodes p ! j))"
    using j(2) by (rule readsOf_mem)
  then have "\<exists>ids. inputStages (nodes p ! j) = Some ids \<and> r \<in> set ids"
    using j(2) u unfolding r by (rule getReads_underscore)
  then show "\<exists>ids. inputStages (nodes p ! toNode e) = Some ids \<and> nodeId (nodes p ! k) \<in> set ids"
    unfolding r t .
qed

theorem C3_double_underscore_only_from_inputStages_witness:
  "\<not> prefix ''__'' ''project.dataset.names'' \<and>
   (\<exists>ids. inputStages underscoreStage = Some ids \<and> ''__stage00_output'' \<in> set ids) \<and>
   suffix [''__stage00_output''] [''__stage00_output''] \<and>
   getReads steplessStage = Inr [] \<and>
   (\<exists>consumer \<in> set [underscoreStage]. \<exists>ids. inputStages consumer = Some ids \<and>
      nodeId (ghostNode ''__stage00_output'') \<in> set ids) \<and>
   (\<exists>ids. inputStages (nodes underscoreResult ! 0) = Some ids \<and>
      nodeId (nodes underscoreResult ! 1) \<in> set ids)"
proof -
  note t = C3_double_underscore_only_from_inputStages
    [of sampleReadStep underscoreStage hostRuntime underscoreJob]
  have t1: "\<forall>item. readItem sampleReadStep = Inr (Some item) \<longrightarrow> \<not> prefix ''__'' item"
    using t by (elim conjE) assumption
  have t2: "\<forall>rs r. getReads underscoreStage = Inr rs \<longrightarrow> r \<in> set rs \<longrightarrow> prefix ''__'' r \<longrightarrow>
      (\<exists>ids. inputStages underscoreStage = Some ids \<and> r \<in> set ids)"
    using t by (elim conjE) assumption
  have t3: "\<forall>rs ids. getReads underscoreStage = Inr rs \<longrightarrow> steps underscoreStage \<noteq> None \<longrightarrow>
      inputStages underscoreStage = Some ids \<longrightarrow> suffix ids rs"
    using t by (elim conjE) assumption
  have t4: "\<forall>p st q qp. newBqQueryPlan hostRuntime underscoreJob = Inr p \<longrightarrow> isValid p \<longrightarrow>
      statistics underscoreJob = Some st \<longrightarrow> query st = Some q \<longrightarrow> queryPlan q = Some qp \<longrightarrow>
        (\<forall>g \<in> set (drop (length qp) (nodes p)). prefix ''__'' (nodeId g) \<longrightarrow>
           (\<exists>consumer \<in> set qp. \<exists>ids. inputStages consumer = Some ids \<and> nodeId g \<in> set ids)) \<and>
        (\<forall>e \<in> set (edges p). \<forall>k. fromNode e = Some k \<longrightarrow>
           prefix ''__'' (nodeId (nodes p ! k)) \<longrightarrow>
           (\<exists>ids. inputStages (nodes p ! toNode e) = Some ids \<and>
                  nodeId (nodes p ! k) \<in> set ids))"
    using t by (elim conjE) assumption
  have r: "readItem sampleReadStep = Inr (Some ''project.dataset.names'')"
    by (simp add: readItem_def sampleReadStep_def)
  have 1: "\<not> prefix ''__'' ''project.dataset.names''"
    using t1 r by blast
  have u: "prefix ''__'' ''__stage00_output''"
    by simp
  have m: "''__stage00_output'' \<in> set [''__stage00_output'']"
    by simp
  have 2: "\<exists>ids. inputStages underscoreStage = Some ids \<and> ''__stage00_output'' \<in> set ids"
    using t2 [rule_format, OF getReads_underscoreStage m u] .
  have f: "steps underscoreStage \<noteq> None" "inputStages underscoreStage = Some [''__stage00_output'']"
    by (simp_all add: underscoreStage_def)
  have 3: "suffix [''__stage00_output''] [''__stage00_output'']"
    using t3 [rule_format, OF getReads_underscoreStage f] .
  have n: "steps steplessStage = None"
    by (simp add: steplessStage_def)
  have "steps steplessStage = None \<longrightarrow> getReads steplessStage = Inr []"
    using C3_double_underscore_only_from_inputStages
      [of sampleReadStep steplessStage hostRuntime underscoreJob]
    by (elim conjE) assumption
  then have 7: "getReads steplessStage = Inr []"
    using n by (rule mp)
  have v: "isValid underscoreResult"
    by (simp add: underscoreResult_def)
  note t5 = t4 [rule_format, OF underscoreJob_result v underscoreJob_fields(3,4,5)]
  have g: "ghostNode ''__stage00_output'' \<in> set (drop (length [underscoreStage]) (nodes underscoreResult))"
    "prefix ''__'' (nodeId (ghostNode ''__stage00_output''))"
    by (simp_all add: underscoreResult_def ghostNode_def)
  have 4: "\<exists>consumer \<in> set [underscoreStage]. \<exists>ids. inputStages consumer = Some ids \<and>
      nodeId (ghostNode ''__stage00_output'') \<in> set ids"
    using t5 [THEN conjunct1, rule_format, OF g] .
  have e: "\<lparr>fromNode = Some 1, toNode = 0, outputName = ''S01: Output''\<rparr> \<in> set (edges underscoreResult)"
    "fromNode \<lparr>fromNode = Some 1, toNode = 0, outputName = ''S01: Output''\<rparr> = Some 1"
    "prefix ''__'' (nodeId (nodes underscoreResult ! 1))"
    by (simp_all add: underscoreResult_def ghostNode_def)
  have 5: "\<exists>ids. inputStages (nodes underscoreResult !
        toNode \<lparr>fromNode = Some 1, toNode = 0, outputName = ''S01: Output''\<rparr>) = Some ids \<and>
      nodeId (nodes underscoreResult ! 1) \<in> set ids"
    using t5 [THEN conjunct2, rule_format, OF e] .
  then have 6: "\<exists>ids. inputStages (nodes underscoreResult ! 0) = Some ids \<and>
      nodeId (nodes underscoreResult ! 1) \<in> set ids"
    by simp
  show ?thesis
    using 1 2 3 7 4 6 by (intro conjI)
qed

subsection \<open>Ghost nodes and edges of a valid plan\<close>






































end
